theory Spec2Isabelle
  imports Main "HOL-Library.Word"
begin

unbundle bit_operations_syntax

section \<open>Scene statistics of the info header (info\_stats.c)\<close>

text \<open>
  The C types are modelled by machine words: \<open>int\<close> is \<open>32 word\<close>, \<open>short\<close> is
  \<open>16 word\<close>, \<open>char\<close> is \<open>8 word\<close> and \<open>uint64_t\<close> is \<open>64 word\<close>. Arithmetic on words
  wraps around. An \<open>int\<close> that is added to a \<open>uint64_t\<close> counter is converted by sign
  extension, which is \<open>scast\<close>. A pointer that the code tests against \<open>NULL\<close> is an
  \<open>option\<close>; a pointer that the code follows without a test is a plain field. A linked
  list (\<open>ListBase\<close>) and an array with its element count are lists.
\<close>

subsection \<open>The accumulator\<close>

record SceneStats =
  totvert :: "64 word"
  totvertsel :: "64 word"
  totedge :: "64 word"
  totedgesel :: "64 word"
  totface :: "64 word"
  totfacesel :: "64 word"
  totbone :: "64 word"
  totbonesel :: "64 word"
  totobj :: "64 word"
  totobjsel :: "64 word"
  totlamp :: "64 word"
  totlampsel :: "64 word"
  tottri :: "64 word"
  totgplayer :: "64 word"
  totgpframe :: "64 word"
  totgpstroke :: "64 word"
  totgppoint :: "64 word"
  infostr :: string

text \<open>\<open>SceneStats stats = {0}\<close>: every counter zero, the string empty.\<close>

definition stats_zero :: SceneStats where
  "stats_zero =
     \<lparr>totvert = 0, totvertsel = 0, totedge = 0, totedgesel = 0, totface = 0,
      totfacesel = 0, totbone = 0, totbonesel = 0, totobj = 0, totobjsel = 0,
      totlamp = 0, totlampsel = 0, tottri = 0, totgplayer = 0, totgpframe = 0,
      totgpstroke = 0, totgppoint = 0, infostr = []\<rparr>"

subsection \<open>Geometry read by the counters\<close>

text \<open>The four totals of an evaluated \<open>Mesh\<close> that \<open>stats_mesheval\<close> reads.\<close>

record Mesh =
  me_totvert :: "32 word"
  me_totedge :: "32 word"
  me_totpoly :: "32 word"
  me_totloop :: "32 word"

text \<open>
  Modelled from the spec: \<open>poly_to_tri_count\<close> is declared in the math library, which is
  not among the sources. The spec derives the triangle count from the loop and polygon
  totals, a polygon of k vertices giving k - 2 triangles, so the count is the loop total
  minus twice the polygon total.
\<close>

definition poly_to_tri_count :: "32 word \<Rightarrow> 32 word \<Rightarrow> 32 word" where
  "poly_to_tri_count poly_count corner_count = corner_count - poly_count * 2"

text \<open>
  Modelled from the spec: the display list and \<open>BKE_displist_count\<close> are not among the
  sources. The spec sums the vertex, face and triangle counts across the display
  elements, so an element carries its three counts and the function adds them to the
  three running totals it is given.
\<close>

record DispList =
  dl_totvert :: "32 word"
  dl_totface :: "32 word"
  dl_tottri :: "32 word"

fun BKE_displist_count ::
  "DispList list \<Rightarrow> 32 word \<times> 32 word \<times> 32 word \<Rightarrow> 32 word \<times> 32 word \<times> 32 word" where
  "BKE_displist_count [] tots = tots"
| "BKE_displist_count (dl # lb) (totv, totf, tottri') =
     BKE_displist_count lb (totv + dl_totvert dl, totf + dl_totface dl, tottri' + dl_tottri dl)"

record CurveCache =
  disp :: "DispList list"

record Object_Runtime =
  mesh_eval :: "Mesh option"
  curve_cache :: "CurveCache option"

text \<open>
  Modelled from the spec: the grease-pencil data and \<open>BKE_gpencil_stats_update\<close> are not
  among the sources. The spec recomputes the layer, frame, stroke and point totals of
  the data on demand; the code then reads them from the four fields of the data. The
  data is a list of layers, each a list of frames, each a list of strokes with a point
  count, next to the four stored totals, and the update overwrites the stored totals
  with the counts. \<open>BKE_gpencil_stats_update\<close> is the new content of the data block that
  the update is called on; the caller stores it at the address of the block.
\<close>

record bGPDstroke =
  totpoints :: "32 word"

record bGPDframe =
  strokes :: "bGPDstroke list"

record bGPDlayer =
  frames :: "bGPDframe list"

record bGPdata =
  layers :: "bGPDlayer list"
  totlayer :: "32 word"
  totframe :: "32 word"
  totstroke :: "32 word"
  totpoint :: "32 word"

definition gp_all_frames :: "bGPdata \<Rightarrow> bGPDframe list" where
  "gp_all_frames gpd = concat (map frames (layers gpd))"

definition gp_all_strokes :: "bGPdata \<Rightarrow> bGPDstroke list" where
  "gp_all_strokes gpd = concat (map strokes (gp_all_frames gpd))"

definition BKE_gpencil_stats_update :: "bGPdata \<Rightarrow> bGPdata" where
  "BKE_gpencil_stats_update gpd =
     gpd\<lparr>totlayer := of_nat (length (layers gpd)),
         totframe := of_nat (length (gp_all_frames gpd)),
         totstroke := of_nat (length (gp_all_strokes gpd)),
         totpoint := sum_list (map totpoints (gp_all_strokes gpd))\<rparr>"

subsection \<open>Edit data\<close>

text \<open>
  The counters of a \<open>BMesh\<close> and the triangle count of the edit mesh that owns it.
\<close>

record BMesh =
  bm_totvert :: "32 word"
  bm_totedge :: "32 word"
  bm_totface :: "32 word"
  bm_totvertsel :: "32 word"
  bm_totedgesel :: "32 word"
  bm_totfacesel :: "32 word"

record BMEditMesh =
  bm :: BMesh
  em_tottri :: "32 word"

text \<open>
  An edit bone with its flag word and its parent. The walker only reads the bones, so
  the parent pointer is modelled by the parent bone itself.
\<close>

datatype EditBone = EditBone (ebo_flag: "32 word") (ebo_parent: "EditBone option")

record Bone =
  bone_flag :: "32 word"
  bone_layer :: "32 word"

record bArmature =
  edbo :: "EditBone list"
  arm_layer :: "32 word"

record bPoseChannel =
  bone :: "Bone option"

record bPose =
  chanbase :: "bPoseChannel list"

record BezTriple =
  f1 :: "8 word"
  f2 :: "8 word"
  f3 :: "8 word"

record BPoint =
  bp_f1 :: "16 word"

text \<open>
  A spline: \<open>bezt\<close> is the array of its \<open>pntsu\<close> Bezier points and \<open>bp\<close> the array of
  its \<open>pntsu * pntsv\<close> points; each array is the list of its elements.
\<close>

record Nurb =
  nu_type :: "16 word"
  bezt :: "BezTriple list"
  bp :: "BPoint list"

record MetaElem =
  ml_flag :: "16 word"

record SculptSession =
  sculpt_bm :: "BMesh option"

text \<open>
  \<open>ob->data\<close> points to the data block of the object's type. The record has one field
  for each target the file reads, and every branch reads the field of its own type:
  the edit mesh (\<open>BKE_editmesh_from_object\<close>), the armature, the edit splines of a
  curve (\<open>BKE_curve_editNurbs_get\<close>), the edit elements of a metaball, the points of the
  edit lattice (\<open>lt->editlatt->latt->def\<close>, an array of \<open>pntsu * pntsv * pntsw\<close> points),
  the grease-pencil data, and whether \<open>BKE_keyblock_from_object\<close> finds a shape key.

  The grease-pencil data is the one target that the file writes. It is held by its
  address (\<open>gpd\<close>); the data blocks are in a store that maps every address to the block
  found there, and objects with the same address share one block.
\<close>

record Object_Data =
  edit_btmesh :: BMEditMesh
  arm :: bArmature
  editnurb :: "Nurb list"
  editelems :: "MetaElem list"
  editlatt_def :: "BPoint list"
  gpd :: nat
  keyblock :: bool

subsection \<open>Objects, particle systems and collections\<close>

datatype ObType =
  OB_EMPTY | OB_MESH | OB_CURVE | OB_SURF | OB_FONT | OB_MBALL | OB_LAMP | OB_CAMERA
  | OB_SPEAKER | OB_LIGHTPROBE | OB_LATTICE | OB_ARMATURE | OB_GPENCIL

datatype DrawAs =
  PART_DRAW_NOT | PART_DRAW_DOT | PART_DRAW_CIRC | PART_DRAW_CROSS | PART_DRAW_AXIS
  | PART_DRAW_LINE | PART_DRAW_PATH | PART_DRAW_OB | PART_DRAW_GR | PART_DRAW_BB
  | PART_DRAW_REND

text \<open>
  An object, the particle systems it carries, their settings, and the collections the
  settings point to. The counters only read what these pointers lead to, so each
  pointer is modelled by the value it leads to.

  Modelled from the spec: \<open>count_duplilist\<close> and \<open>count_particles\<close> are not among the
  sources. The spec takes the number of instances of an object from the
  duplication-list engine and the number of live particles of a system from the
  particle subsystem, each an integer: the object carries its instance count
  (\<open>duplilist_tot\<close>) and the particle system its live count (\<open>totlive\<close>).
\<close>

datatype Object =
  Object (ob_type: ObType) (mode: "32 word") (base_flag: "16 word") (transflag: "16 word")
    (id_name: string) (runtime: Object_Runtime) (data: Object_Data)
    (pose: "bPose option") (sculpt: "SculptSession option") (parent: "Object option")
    (particlesystem: "ParticleSystem list") (ob_dup_group: "Collection option")
    (duplilist_tot: "32 word")
and ParticleSystem =
  ParticleSystem (part: ParticleSettings) (totlive: "32 word")
and ParticleSettings =
  ParticleSettings (draw_as: DrawAs) (dup_ob: "Object option") (dup_group: "Collection option")
and Collection =
  Collection (gobject: "Object list") (children: "Collection list")

definition count_duplilist :: "Object \<Rightarrow> 32 word" where
  "count_duplilist ob = duplilist_tot ob"

definition count_particles :: "ParticleSystem \<Rightarrow> 32 word" where
  "count_particles psys = totlive psys"

text \<open>
  Modelled from the spec: \<open>count_particles_mod\<close> is not among the sources. The spec
  distributes the live count of the system over \<open>totgr\<close> members round-robin: each
  member gets the count divided by \<open>totgr\<close>, rounded down, and the remainder is given
  out one by one starting from the first member.
\<close>

definition count_particles_mod :: "ParticleSystem \<Rightarrow> 32 word \<Rightarrow> 32 word \<Rightarrow> 32 word" where
  "count_particles_mod psys totgr cur =
     totlive psys div totgr + (if cur < totlive psys mod totgr then 1 else 0)"

subsection \<open>Flag bits\<close>

text \<open>
  Modelled from the spec: the headers that declare the flag bits are not among the
  sources. The spec names the flags (selected, root-selected, tip-selected and
  connected for a bone; selected for a base and for a point; the duplication flags of
  an object; the edit, sculpt and pose modes); each is a single bit of its flag word,
  at the position the headers of this version give it.
\<close>

definition BONE_SELECTED :: "32 word" where "BONE_SELECTED = 1"
definition BONE_ROOTSEL :: "32 word" where "BONE_ROOTSEL = 2"
definition BONE_TIPSEL :: "32 word" where "BONE_TIPSEL = 4"
definition BONE_CONNECTED :: "32 word" where "BONE_CONNECTED = 16"

definition BASE_SELECTED :: "16 word" where "BASE_SELECTED = 1"

definition OB_DUPLIFRAMES :: "16 word" where "OB_DUPLIFRAMES = 8"
definition OB_DUPLIVERTS :: "16 word" where "OB_DUPLIVERTS = 16"
definition OB_DUPLICOLLECTION :: "16 word" where "OB_DUPLICOLLECTION = 256"
definition OB_DUPLIFACES :: "16 word" where "OB_DUPLIFACES = 512"
definition OB_DUPLIPARTS :: "16 word" where "OB_DUPLIPARTS = 2048"

definition OB_MODE_OBJECT :: "32 word" where "OB_MODE_OBJECT = 0"
definition OB_MODE_EDIT :: "32 word" where "OB_MODE_EDIT = 1"
definition OB_MODE_SCULPT :: "32 word" where "OB_MODE_SCULPT = 2"
definition OB_MODE_POSE :: "32 word" where "OB_MODE_POSE = 64"

definition CU_BEZIER :: "16 word" where "CU_BEZIER = 1"

subsection \<open>The per-object counter\<close>

definition stats_mesheval ::
  "Mesh option \<Rightarrow> 32 word \<Rightarrow> 32 word \<Rightarrow> SceneStats \<Rightarrow> bool \<times> SceneStats" where
  "stats_mesheval me_eval sel totob stats =
     (case me_eval of
        Some me \<Rightarrow>
          (let totvert' = me_totvert me;
               totedge' = me_totedge me;
               totface' = me_totpoly me;
               totloop' = me_totloop me;
               stats = stats\<lparr>totvert := totvert stats + scast (totvert' * totob)\<rparr>;
               stats = stats\<lparr>totedge := totedge stats + scast (totedge' * totob)\<rparr>;
               stats = stats\<lparr>totface := totface stats + scast (totface' * totob)\<rparr>;
               stats = stats\<lparr>tottri := tottri stats
                          + scast (poly_to_tri_count totface' totloop' * totob)\<rparr>;
               stats = (if sel \<noteq> 0
                        then stats\<lparr>totvertsel := totvertsel stats + scast totvert',
                                   totfacesel := totfacesel stats + scast totface'\<rparr>
                        else stats)
           in (True, stats))
      | None \<Rightarrow> (False, stats))"

text \<open>
  The display-list branch of \<open>stats_object\<close>: the case \<open>OB_MBALL\<close>, which the curve,
  surface and text cases fall through to when there is no evaluated mesh.
\<close>

definition stats_object_displist ::
  "Object \<Rightarrow> 32 word \<Rightarrow> 32 word \<Rightarrow> SceneStats \<Rightarrow> SceneStats" where
  "stats_object_displist ob sel totob stats =
     (let (totv, totf, tottri') =
            (case curve_cache (runtime ob) of
               Some cc \<Rightarrow>
                 (if disp cc \<noteq> [] then BKE_displist_count (disp cc) (0, 0, 0) else (0, 0, 0))
             | None \<Rightarrow> (0, 0, 0));
          totv = totv * totob;
          totf = totf * totob;
          tottri' = tottri' * totob;
          stats = stats\<lparr>totvert := totvert stats + scast totv\<rparr>;
          stats = stats\<lparr>totface := totface stats + scast totf\<rparr>;
          stats = stats\<lparr>tottri := tottri stats + scast tottri'\<rparr>
      in (if sel \<noteq> 0
          then stats\<lparr>totvertsel := totvertsel stats + scast totv,
                     totfacesel := totfacesel stats + scast totf\<rparr>
          else stats))"

text \<open>
  \<open>stats_object\<close> takes the store of grease-pencil data blocks (\<open>gpencils\<close>) and returns
  it next to the accumulator: the grease-pencil case calls \<open>BKE_gpencil_stats_update\<close>
  on the block that \<open>ob->data\<close> points to, which overwrites the block in the store, and
  then reads the totals from that block.
\<close>

definition stats_object ::
  "(nat \<Rightarrow> bGPdata) \<Rightarrow> Object \<Rightarrow> 32 word \<Rightarrow> 32 word \<Rightarrow> SceneStats
     \<Rightarrow> (nat \<Rightarrow> bGPdata) \<times> SceneStats" where
  "stats_object gpencils ob sel totob stats =
     (case ob_type ob of
        OB_MESH \<Rightarrow> (gpencils, snd (stats_mesheval (mesh_eval (runtime ob)) sel totob stats))
      | OB_LAMP \<Rightarrow>
          (let stats = stats\<lparr>totlamp := totlamp stats + scast totob\<rparr>
           in (gpencils, if sel \<noteq> 0 then stats\<lparr>totlampsel := totlampsel stats + scast totob\<rparr>
                         else stats))
      | OB_SURF \<Rightarrow>
          (case stats_mesheval (mesh_eval (runtime ob)) sel totob stats of
             (True, stats') \<Rightarrow> (gpencils, stats')
           | (False, stats') \<Rightarrow> (gpencils, stats_object_displist ob sel totob stats'))
      | OB_CURVE \<Rightarrow>
          (case stats_mesheval (mesh_eval (runtime ob)) sel totob stats of
             (True, stats') \<Rightarrow> (gpencils, stats')
           | (False, stats') \<Rightarrow> (gpencils, stats_object_displist ob sel totob stats'))
      | OB_FONT \<Rightarrow>
          (case stats_mesheval (mesh_eval (runtime ob)) sel totob stats of
             (True, stats') \<Rightarrow> (gpencils, stats')
           | (False, stats') \<Rightarrow> (gpencils, stats_object_displist ob sel totob stats'))
      | OB_MBALL \<Rightarrow> (gpencils, stats_object_displist ob sel totob stats)
      | OB_GPENCIL \<Rightarrow>
          (if sel \<noteq> 0
           then (let p = gpd (data ob);
                     gpencils = gpencils(p := BKE_gpencil_stats_update (gpencils p));
                     stats = stats\<lparr>totgplayer := totgplayer stats + scast (totlayer (gpencils p))\<rparr>;
                     stats = stats\<lparr>totgpframe := totgpframe stats + scast (totframe (gpencils p))\<rparr>;
                     stats = stats\<lparr>totgpstroke := totgpstroke stats + scast (totstroke (gpencils p))\<rparr>;
                     stats = stats\<lparr>totgppoint := totgppoint stats + scast (totpoint (gpencils p))\<rparr>
                 in (gpencils, stats))
           else (gpencils, stats))
      | _ \<Rightarrow> (gpencils, stats))"

subsection \<open>The edit-mode walker\<close>

definition SELECT :: "'a::len word" where "SELECT = 1"

text \<open>The body of the loop over the edit bones of an armature.\<close>

definition stats_object_edit_bone :: "EditBone \<Rightarrow> SceneStats \<Rightarrow> SceneStats" where
  "stats_object_edit_bone ebo stats =
     (let stats = stats\<lparr>totbone := totbone stats + 1\<rparr>;
          stats = (if (ebo_flag ebo AND BONE_CONNECTED) \<noteq> 0 \<and> ebo_parent ebo \<noteq> None
                   then stats\<lparr>totvert := totvert stats - 1\<rparr> else stats);
          stats = (if (ebo_flag ebo AND BONE_TIPSEL) \<noteq> 0
                   then stats\<lparr>totvertsel := totvertsel stats + 1\<rparr> else stats);
          stats = (if (ebo_flag ebo AND BONE_ROOTSEL) \<noteq> 0
                   then stats\<lparr>totvertsel := totvertsel stats + 1\<rparr> else stats);
          stats = (if (ebo_flag ebo AND BONE_SELECTED) \<noteq> 0
                   then stats\<lparr>totbonesel := totbonesel stats + 1\<rparr> else stats);
          stats = (if (ebo_flag ebo AND BONE_CONNECTED) \<noteq> 0
                      \<and> (ebo_flag ebo AND BONE_ROOTSEL) \<noteq> 0
                      \<and> (case ebo_parent ebo of
                            Some p \<Rightarrow> (ebo_flag p AND BONE_TIPSEL) \<noteq> 0
                          | None \<Rightarrow> False)
                   then stats\<lparr>totvertsel := totvertsel stats - 1\<rparr> else stats)
      in stats\<lparr>totvert := totvert stats + 2\<rparr>)"

fun stats_object_edit_bones :: "EditBone list \<Rightarrow> SceneStats \<Rightarrow> SceneStats" where
  "stats_object_edit_bones [] stats = stats"
| "stats_object_edit_bones (ebo # ebos) stats =
     stats_object_edit_bones ebos (stats_object_edit_bone ebo stats)"

text \<open>The two loops \<open>while (a--)\<close> over the points of a spline.\<close>

fun stats_object_edit_bezt :: "BezTriple list \<Rightarrow> SceneStats \<Rightarrow> SceneStats" where
  "stats_object_edit_bezt [] stats = stats"
| "stats_object_edit_bezt (b # bs) stats =
     (let stats = stats\<lparr>totvert := totvert stats + 3\<rparr>;
          stats = (if (f1 b AND SELECT) \<noteq> 0
                   then stats\<lparr>totvertsel := totvertsel stats + 1\<rparr> else stats);
          stats = (if (f2 b AND SELECT) \<noteq> 0
                   then stats\<lparr>totvertsel := totvertsel stats + 1\<rparr> else stats);
          stats = (if (f3 b AND SELECT) \<noteq> 0
                   then stats\<lparr>totvertsel := totvertsel stats + 1\<rparr> else stats)
      in stats_object_edit_bezt bs stats)"

fun stats_object_edit_bp :: "BPoint list \<Rightarrow> SceneStats \<Rightarrow> SceneStats" where
  "stats_object_edit_bp [] stats = stats"
| "stats_object_edit_bp (p # ps) stats =
     (let stats = stats\<lparr>totvert := totvert stats + 1\<rparr>;
          stats = (if (bp_f1 p AND SELECT) \<noteq> 0
                   then stats\<lparr>totvertsel := totvertsel stats + 1\<rparr> else stats)
      in stats_object_edit_bp ps stats)"

fun stats_object_edit_nurbs :: "Nurb list \<Rightarrow> SceneStats \<Rightarrow> SceneStats" where
  "stats_object_edit_nurbs [] stats = stats"
| "stats_object_edit_nurbs (nu # nus) stats =
     stats_object_edit_nurbs nus
       (if nu_type nu = CU_BEZIER then stats_object_edit_bezt (bezt nu) stats
        else stats_object_edit_bp (bp nu) stats)"

fun stats_object_edit_elems :: "MetaElem list \<Rightarrow> SceneStats \<Rightarrow> SceneStats" where
  "stats_object_edit_elems [] stats = stats"
| "stats_object_edit_elems (ml # mls) stats =
     (let stats = stats\<lparr>totvert := totvert stats + 1\<rparr>;
          stats = (if (ml_flag ml AND SELECT) \<noteq> 0
                   then stats\<lparr>totvertsel := totvertsel stats + 1\<rparr> else stats)
      in stats_object_edit_elems mls stats)"

definition stats_object_edit :: "Object \<Rightarrow> SceneStats \<Rightarrow> SceneStats" where
  "stats_object_edit obedit stats =
     (if ob_type obedit = OB_MESH then
        (let em = edit_btmesh (data obedit);
             stats = stats\<lparr>totvert := totvert stats + scast (bm_totvert (bm em))\<rparr>;
             stats = stats\<lparr>totvertsel := totvertsel stats + scast (bm_totvertsel (bm em))\<rparr>;
             stats = stats\<lparr>totedge := totedge stats + scast (bm_totedge (bm em))\<rparr>;
             stats = stats\<lparr>totedgesel := totedgesel stats + scast (bm_totedgesel (bm em))\<rparr>;
             stats = stats\<lparr>totface := totface stats + scast (bm_totface (bm em))\<rparr>;
             stats = stats\<lparr>totfacesel := totfacesel stats + scast (bm_totfacesel (bm em))\<rparr>
         in stats\<lparr>tottri := tottri stats + scast (em_tottri em)\<rparr>)
      else if ob_type obedit = OB_ARMATURE then
        stats_object_edit_bones (edbo (arm (data obedit))) stats
      else if ob_type obedit = OB_CURVE \<or> ob_type obedit = OB_SURF then
        stats_object_edit_nurbs (editnurb (data obedit)) stats
      else if ob_type obedit = OB_MBALL then
        stats_object_edit_elems (editelems (data obedit)) stats
      else if ob_type obedit = OB_LATTICE then
        stats_object_edit_bp (editlatt_def (data obedit)) stats
      else stats)"

subsection \<open>The pose walker and the sculpt reader\<close>

fun stats_object_pose_chans :: "32 word \<Rightarrow> bPoseChannel list \<Rightarrow> SceneStats \<Rightarrow> SceneStats" where
  "stats_object_pose_chans al [] stats = stats"
| "stats_object_pose_chans al (pchan # pchans) stats =
     (let stats = stats\<lparr>totbone := totbone stats + 1\<rparr>;
          stats = (if (case bone pchan of
                         Some b \<Rightarrow> (bone_flag b AND BONE_SELECTED) \<noteq> 0
                       | None \<Rightarrow> False)
                   then (if (case bone pchan of
                               Some b \<Rightarrow> (bone_layer b AND al) \<noteq> 0
                             | None \<Rightarrow> False)
                         then stats\<lparr>totbonesel := totbonesel stats + 1\<rparr> else stats)
                   else stats)
      in stats_object_pose_chans al pchans stats)"

definition stats_object_pose :: "Object \<Rightarrow> SceneStats \<Rightarrow> SceneStats" where
  "stats_object_pose ob stats =
     (case pose ob of
        Some po \<Rightarrow> stats_object_pose_chans (arm_layer (arm (data ob))) (chanbase po) stats
      | None \<Rightarrow> stats)"

text \<open>
  \<open>stats_object_sculpt_dynamic_topology\<close> follows \<open>ob->sculpt\<close> and \<open>ob->sculpt->bm\<close>
  without a test; \<open>None\<close> is the dereference of a null pointer.
\<close>

definition stats_object_sculpt_dynamic_topology :: "Object \<Rightarrow> SceneStats \<Rightarrow> SceneStats option" where
  "stats_object_sculpt_dynamic_topology ob stats =
     (case sculpt ob of
        None \<Rightarrow> None
      | Some ss \<Rightarrow>
          (case sculpt_bm ss of
             None \<Rightarrow> None
           | Some b \<Rightarrow>
               Some (stats\<lparr>totvert := scast (bm_totvert b), tottri := scast (bm_totface b)\<rparr>)))"

subsection \<open>The duplication expander\<close>

fun stats_dupli_object_group_count :: "Collection \<Rightarrow> 32 word \<Rightarrow> 32 word"
  and stats_dupli_object_group_count_children :: "Collection list \<Rightarrow> 32 word \<Rightarrow> 32 word" where
  "stats_dupli_object_group_count (Collection obs chs) count =
     stats_dupli_object_group_count_children chs (count + of_nat (length obs))"
| "stats_dupli_object_group_count_children [] count = count"
| "stats_dupli_object_group_count_children (child # chs) count =
     stats_dupli_object_group_count_children chs (stats_dupli_object_group_count child count)"

text \<open>
  The loop over the member objects of one collection: each member is counted with
  selection off and the share of the particle system for the running index \<open>cur\<close>.
  With selection off \<open>stats_object\<close> writes the accumulator only, so the loops over the
  particle targets take the store and return the accumulator (and the index).
\<close>

fun stats_dupli_object_group_doit_objects ::
  "(nat \<Rightarrow> bGPdata) \<Rightarrow> Object list \<Rightarrow> SceneStats \<Rightarrow> ParticleSystem \<Rightarrow> 32 word \<Rightarrow> 32 word
     \<Rightarrow> SceneStats \<times> 32 word" where
  "stats_dupli_object_group_doit_objects gpencils [] stats psys totgroup cur = (stats, cur)"
| "stats_dupli_object_group_doit_objects gpencils (ob # obs) stats psys totgroup cur =
     (let tot = count_particles_mod psys totgroup cur;
          stats = snd (stats_object gpencils ob 0 tot stats)
      in stats_dupli_object_group_doit_objects gpencils obs stats psys totgroup (cur + 1))"

fun stats_dupli_object_group_doit ::
  "(nat \<Rightarrow> bGPdata) \<Rightarrow> Collection \<Rightarrow> SceneStats \<Rightarrow> ParticleSystem \<Rightarrow> 32 word \<Rightarrow> 32 word
     \<Rightarrow> SceneStats \<times> 32 word"
  and stats_dupli_object_group_doit_children ::
  "(nat \<Rightarrow> bGPdata) \<Rightarrow> Collection list \<Rightarrow> SceneStats \<Rightarrow> ParticleSystem \<Rightarrow> 32 word \<Rightarrow> 32 word
     \<Rightarrow> SceneStats \<times> 32 word" where
  "stats_dupli_object_group_doit gpencils (Collection obs chs) stats psys totgroup cur =
     (case stats_dupli_object_group_doit_objects gpencils obs stats psys totgroup cur of
        (stats', cur') \<Rightarrow>
          stats_dupli_object_group_doit_children gpencils chs stats' psys totgroup cur')"
| "stats_dupli_object_group_doit_children gpencils [] stats psys totgroup cur = (stats, cur)"
| "stats_dupli_object_group_doit_children gpencils (child # chs) stats psys totgroup cur =
     (case stats_dupli_object_group_doit gpencils child stats psys totgroup cur of
        (stats', cur') \<Rightarrow>
          stats_dupli_object_group_doit_children gpencils chs stats' psys totgroup cur')"

text \<open>
  The loop over the particle systems of an object with \<open>OB_DUPLIPARTS\<close>. The targets
  are counted with selection off, so this loop too returns the accumulator only.
\<close>

fun stats_dupli_object_parts ::
  "(nat \<Rightarrow> bGPdata) \<Rightarrow> ParticleSystem list \<Rightarrow> SceneStats \<Rightarrow> SceneStats" where
  "stats_dupli_object_parts gpencils [] stats = stats"
| "stats_dupli_object_parts gpencils (psys # psyss) stats =
     stats_dupli_object_parts gpencils psyss
       (if draw_as (part psys) = PART_DRAW_OB \<and> dup_ob (part psys) \<noteq> None then
          (case dup_ob (part psys) of
             Some target \<Rightarrow> snd (stats_object gpencils target 0 (count_particles psys) stats)
           | None \<Rightarrow> stats)
        else if draw_as (part psys) = PART_DRAW_GR \<and> dup_group (part psys) \<noteq> None then
          (case dup_group (part psys) of
             Some collection \<Rightarrow>
               (let totgroup = stats_dupli_object_group_count collection 0
                in fst (stats_dupli_object_group_doit gpencils collection stats psys totgroup 0))
           | None \<Rightarrow> stats)
        else stats)"

text \<open>
  \<open>stats_dupli_object\<close> returns the store next to the accumulator, as \<open>stats_object\<close>
  does. The flag \<open>is_selected\<close> is passed for the \<open>int\<close> parameter \<open>sel\<close> as 1 or 0. In the
  branch for vertex and face duplication the parent has been tested before
  \<open>count_duplilist\<close> reads it; the value written for an absent parent is never taken.
\<close>

definition stats_dupli_object ::
  "(nat \<Rightarrow> bGPdata) \<Rightarrow> Object \<Rightarrow> SceneStats \<Rightarrow> (nat \<Rightarrow> bGPdata) \<times> SceneStats" where
  "stats_dupli_object gpencils ob stats =
     (let is_selected = ((base_flag ob AND BASE_SELECTED) \<noteq> 0);
          sel = (if is_selected then 1 else 0);
          stats = (if is_selected then stats\<lparr>totobjsel := totobjsel stats + 1\<rparr> else stats)
      in if (transflag ob AND OB_DUPLIPARTS) \<noteq> 0 then
           (let stats = stats_dupli_object_parts gpencils (particlesystem ob) stats;
                (gpencils', stats) = stats_object gpencils ob sel 1 stats
            in (gpencils', stats\<lparr>totobj := totobj stats + 1\<rparr>))
         else if (case parent ob of
                    Some pa \<Rightarrow> (transflag pa AND (OB_DUPLIVERTS OR OB_DUPLIFACES)) \<noteq> 0
                  | None \<Rightarrow> False) then
           (let tot = (if ob_type ob = OB_MBALL then 1
                       else (case parent ob of Some pa \<Rightarrow> count_duplilist pa | None \<Rightarrow> 0));
                stats = stats\<lparr>totobj := totobj stats + scast tot\<rparr>
            in stats_object gpencils ob sel tot stats)
         else if (transflag ob AND OB_DUPLIFRAMES) \<noteq> 0 then
           (let tot = count_duplilist ob;
                stats = stats\<lparr>totobj := totobj stats + scast tot\<rparr>
            in stats_object gpencils ob sel tot stats)
         else if (transflag ob AND OB_DUPLICOLLECTION) \<noteq> 0 \<and> ob_dup_group ob \<noteq> None then
           (let tot = count_duplilist ob;
                stats = stats\<lparr>totobj := totobj stats + scast tot\<rparr>
            in stats_object gpencils ob sel tot stats)
         else
           (let (gpencils', stats) = stats_object gpencils ob sel 1 stats
            in (gpencils', stats\<lparr>totobj := totobj stats + 1\<rparr>)))"

subsection \<open>Recomputation\<close>

text \<open>
  Modelled from the spec: the view layer, the dependency graph and the macros that walk
  them (\<open>OBACT\<close>, \<open>OBEDIT_FROM_OBACT\<close>, \<open>OBEDIT_FROM_VIEW_LAYER\<close>,
  \<open>FOREACH_OBJECT_IN_MODE\<close>, \<open>DEG_OBJECT_ITER_FOR_RENDER_ENGINE\<close>,
  \<open>BKE_scene_get_depsgraph\<close>, \<open>BKE_collection_ui_name_get\<close>) are not among the sources.
  The spec gives the viewing context an active object, an edit object, the sequence of
  objects of the same edit session and the cached accumulator, and gives the scene the
  sequence of its evaluated objects. The view layer carries the active object
  (\<open>basact\<close>), the objects of the edit session (\<open>objects_in_mode\<close>), the name of the
  active collection and the cache (\<open>vl_stats\<close>, the field \<open>stats\<close> of the source); the
  edit object is the active object when its mode has the edit bit. The dependency
  graph carries its evaluated objects and the store of the grease-pencil data blocks
  that they point to.
\<close>

record Depsgraph =
  dg_objects :: "Object list"
  dg_gpencils :: "nat \<Rightarrow> bGPdata"

record Scene =
  scene_depsgraph :: Depsgraph

record ViewLayer =
  basact :: "Object option"
  objects_in_mode :: "Object list"
  active_collection_name :: string
  vl_stats :: "SceneStats option"

definition OBACT :: "ViewLayer \<Rightarrow> Object option" where
  "OBACT view_layer = basact view_layer"

definition OBEDIT_FROM_OBACT :: "Object option \<Rightarrow> Object option" where
  "OBEDIT_FROM_OBACT ob =
     (case ob of
        Some ob' \<Rightarrow> (if (mode ob' AND OB_MODE_EDIT) \<noteq> 0 then Some ob' else None)
      | None \<Rightarrow> None)"

definition OBEDIT_FROM_VIEW_LAYER :: "ViewLayer \<Rightarrow> Object option" where
  "OBEDIT_FROM_VIEW_LAYER view_layer = OBEDIT_FROM_OBACT (OBACT view_layer)"

definition BKE_scene_get_depsgraph :: "Scene \<Rightarrow> Depsgraph" where
  "BKE_scene_get_depsgraph scene = scene_depsgraph scene"

definition stats_is_object_dynamic_topology_sculpt :: "Object option \<Rightarrow> 32 word \<Rightarrow> bool" where
  "stats_is_object_dynamic_topology_sculpt ob object_mode =
     (case ob of
        None \<Rightarrow> False
      | Some ob' \<Rightarrow>
          (object_mode AND OB_MODE_SCULPT) \<noteq> 0
          \<and> (case sculpt ob' of None \<Rightarrow> False | Some ss \<Rightarrow> sculpt_bm ss \<noteq> None))"

text \<open>The loop over the objects of the edit session.\<close>

fun stats_update_edit :: "Object list \<Rightarrow> SceneStats \<Rightarrow> SceneStats" where
  "stats_update_edit [] stats = stats"
| "stats_update_edit (ob_iter # obs) stats = stats_update_edit obs (stats_object_edit ob_iter stats)"

text \<open>
  The loop over the evaluated objects. It passes the store from one object to the
  next and returns it: the data block of a selected grease-pencil object leaves the
  loop updated.
\<close>

fun stats_update_objects ::
  "(nat \<Rightarrow> bGPdata) \<Rightarrow> Object list \<Rightarrow> SceneStats \<Rightarrow> (nat \<Rightarrow> bGPdata) \<times> SceneStats" where
  "stats_update_objects gpencils [] stats = (gpencils, stats)"
| "stats_update_objects gpencils (ob_iter # obs) stats =
     (case stats_dupli_object gpencils ob_iter stats of
        (gpencils', stats') \<Rightarrow> stats_update_objects gpencils' obs stats')"

text \<open>
  \<open>stats_update\<close> returns the dependency graph and the view layer after the
  recomputation; \<open>None\<close> is the dereference of a null pointer in the sculpt reader. The
  chain of conditions of the source tests \<open>obedit\<close>, then \<open>ob\<close> and its pose bit, then
  \<open>ob\<close> and the sculpt test, and falls to the loop over the evaluated objects
  (\<open>objects\<close>) otherwise; a test \<open>ob && ...\<close> is the case \<open>Some\<close> of the active object.
  The cache is allocated when absent and overwritten in either case.
\<close>

definition stats_update :: "Depsgraph \<Rightarrow> ViewLayer \<Rightarrow> (Depsgraph \<times> ViewLayer) option" where
  "stats_update depsgraph view_layer =
     (let stats = stats_zero;
          ob = OBACT view_layer;
          obedit = OBEDIT_FROM_VIEW_LAYER view_layer;
          objects =
            (case stats_update_objects (dg_gpencils depsgraph) (dg_objects depsgraph) stats of
               (gpencils', stats') \<Rightarrow> Some (depsgraph\<lparr>dg_gpencils := gpencils'\<rparr>, stats'));
          result =
            (case obedit of
               Some _ \<Rightarrow> Some (depsgraph, stats_update_edit (objects_in_mode view_layer) stats)
             | None \<Rightarrow>
                 (case ob of
                    Some ob' \<Rightarrow>
                      (if (mode ob' AND OB_MODE_POSE) \<noteq> 0 then
                         Some (depsgraph, stats_object_pose ob' stats)
                       else if stats_is_object_dynamic_topology_sculpt ob (mode ob') then
                         (case stats_object_sculpt_dynamic_topology ob' stats of
                            Some stats' \<Rightarrow> Some (depsgraph, stats')
                          | None \<Rightarrow> None)
                       else objects)
                  | None \<Rightarrow> objects))
      in (case result of
            Some (depsgraph', stats') \<Rightarrow> Some (depsgraph', view_layer\<lparr>vl_stats := Some stats'\<rparr>)
          | None \<Rightarrow> None))"

subsection \<open>The display string\<close>

text \<open>
  Modelled from the spec: the memory and GPU accounting, the formatters, the
  translation of interface strings, the version tag and the bounded string functions
  are not among the sources. The spec has a formatter that renders a counter as a
  grouped-digit string and a byte count as a unit string, memory figures read from the
  process and the GPU backend, and a display string of at most 512 characters. The
  record \<open>Env\<close> holds what \<open>stats_string\<close> reads from these collaborators when it runs.
  \<open>BLI_snprintf\<close> fills the \<open>%s\<close> directives of its format in order, writes at most
  \<open>maxncpy - 1\<close> characters and returns how many it wrote; \<open>BLI_strncpy_rlen\<close> does the
  same for a plain string. The model of each returns the characters written, whose
  length is the returned count.
\<close>

record Env =
  mem_in_use :: "64 word"
  mmap_in_use :: "64 word"
  GPU_mem_stats_supported :: bool
  gpu_free_mem :: "32 word"
  gpu_tot_memory :: "32 word"
  versionstr :: string
  BLI_str_format_uint64_grouped :: "64 word \<Rightarrow> string"
  BLI_str_format_byte_unit :: "64 word \<Rightarrow> string"
  IFACE :: "string \<Rightarrow> string"

fun format_s :: "string \<Rightarrow> string list \<Rightarrow> string" where
  "format_s (c # d # cs) args =
     (if c = CHR ''%'' \<and> d = CHR ''s''
      then (case args of [] \<Rightarrow> format_s cs [] | a # as \<Rightarrow> a @ format_s cs as)
      else c # format_s (d # cs) args)"
| "format_s cs args = cs"

definition BLI_snprintf :: "nat \<Rightarrow> string \<Rightarrow> string list \<Rightarrow> string" where
  "BLI_snprintf maxncpy format args = take (maxncpy - 1) (format_s format args)"

definition BLI_strncpy_rlen :: "nat \<Rightarrow> string \<Rightarrow> string" where
  "BLI_strncpy_rlen maxncpy src = take (maxncpy - 1) src"

definition MAX_INFO_LEN :: nat where "MAX_INFO_LEN = 512"
definition MAX_INFO_MEM_LEN :: nat where "MAX_INFO_MEM_LEN = 64"

text \<open>The memory part and the GPU part of the string, each in a buffer of 64 bytes.\<close>

definition stats_string_memstr :: "Env \<Rightarrow> string" where
  "stats_string_memstr env =
     (let memstr = BLI_snprintf MAX_INFO_MEM_LEN (IFACE env '' | Mem: %s'')
                     [BLI_str_format_byte_unit env (mem_in_use env - mmap_in_use env)]
      in if mmap_in_use env \<noteq> 0
         then memstr @ BLI_snprintf (MAX_INFO_MEM_LEN - length memstr) (IFACE env '' (%s)'')
                         [BLI_str_format_byte_unit env (mmap_in_use env)]
         else memstr)"

definition stats_string_gpumemstr :: "Env \<Rightarrow> string" where
  "stats_string_gpumemstr env =
     (if GPU_mem_stats_supported env then
        (let gpumemstr = BLI_snprintf MAX_INFO_MEM_LEN (IFACE env '' | Free GPU Mem: %s'')
                           [BLI_str_format_byte_unit env (scast (gpu_free_mem env))]
         in if gpu_tot_memory env \<noteq> 0
            then gpumemstr @ BLI_snprintf (MAX_INFO_MEM_LEN - length gpumemstr) (IFACE env ''/%s'')
                               [BLI_str_format_byte_unit env (scast (gpu_tot_memory env))]
            else gpumemstr)
      else [])"

text \<open>
  The counters as formatted numbers (\<open>SceneStatsFmt\<close>, filled by the macro
  \<open>SCENE_STATS_FMT_INT\<close>).
\<close>

record SceneStatsFmt =
  fmt_totvert :: string
  fmt_totvertsel :: string
  fmt_totface :: string
  fmt_totfacesel :: string
  fmt_totedge :: string
  fmt_totedgesel :: string
  fmt_totbone :: string
  fmt_totbonesel :: string
  fmt_totobj :: string
  fmt_totobjsel :: string
  fmt_totlamp :: string
  fmt_totlampsel :: string
  fmt_tottri :: string
  fmt_totgplayer :: string
  fmt_totgpframe :: string
  fmt_totgpstroke :: string
  fmt_totgppoint :: string

definition stats_string_fmt :: "Env \<Rightarrow> SceneStats \<Rightarrow> SceneStatsFmt" where
  "stats_string_fmt env stats =
     \<lparr>fmt_totvert = BLI_str_format_uint64_grouped env (totvert stats),
      fmt_totvertsel = BLI_str_format_uint64_grouped env (totvertsel stats),
      fmt_totface = BLI_str_format_uint64_grouped env (totface stats),
      fmt_totfacesel = BLI_str_format_uint64_grouped env (totfacesel stats),
      fmt_totedge = BLI_str_format_uint64_grouped env (totedge stats),
      fmt_totedgesel = BLI_str_format_uint64_grouped env (totedgesel stats),
      fmt_totbone = BLI_str_format_uint64_grouped env (totbone stats),
      fmt_totbonesel = BLI_str_format_uint64_grouped env (totbonesel stats),
      fmt_totobj = BLI_str_format_uint64_grouped env (totobj stats),
      fmt_totobjsel = BLI_str_format_uint64_grouped env (totobjsel stats),
      fmt_totlamp = BLI_str_format_uint64_grouped env (totlamp stats),
      fmt_totlampsel = BLI_str_format_uint64_grouped env (totlampsel stats),
      fmt_tottri = BLI_str_format_uint64_grouped env (tottri stats),
      fmt_totgplayer = BLI_str_format_uint64_grouped env (totgplayer stats),
      fmt_totgpframe = BLI_str_format_uint64_grouped env (totgpframe stats),
      fmt_totgpstroke = BLI_str_format_uint64_grouped env (totgpstroke stats),
      fmt_totgppoint = BLI_str_format_uint64_grouped env (totgppoint stats)\<rparr>"

text \<open>
  The text that \<open>stats_string\<close> writes into \<open>infostr\<close>. \<open>stats_string_body\<close> is the
  text up to the version tag, from the active object, the name of the active
  collection and the formatted counters; in each step \<open>s\<close> is the text written so far
  and \<open>length s\<close> is \<open>ofs\<close>. \<open>stats_string_text\<close> reads the three from the view layer
  and the cache and appends the version tag.
\<close>

definition stats_string_body ::
  "Env \<Rightarrow> Object option \<Rightarrow> string \<Rightarrow> SceneStatsFmt \<Rightarrow> string" where
  "stats_string_body env ob collection_name stats_fmt =
     (let obedit = OBEDIT_FROM_OBACT ob;
          object_mode = (case ob of Some ob' \<Rightarrow> mode ob' | None \<Rightarrow> OB_MODE_OBJECT);
          memstr = stats_string_memstr env;
          gpumemstr = stats_string_gpumemstr env;
          s = [];
          s = (if object_mode = OB_MODE_OBJECT
               then s @ BLI_snprintf (MAX_INFO_LEN - length s) ''%s | '' [collection_name]
               else s);
          s = (case ob of
                 Some ob' \<Rightarrow> s @ BLI_snprintf (MAX_INFO_LEN - length s) ''%s | '' [id_name ob']
               | None \<Rightarrow> s);
          s = (case obedit of
                 Some obedit' \<Rightarrow>
                   (let s = (if keyblock (data obedit')
                             then s @ BLI_strncpy_rlen (MAX_INFO_LEN - length s) (IFACE env ''(Key) '')
                             else s);
                        s = (if ob_type obedit' = OB_MESH then
                               s @ BLI_snprintf (MAX_INFO_LEN - length s)
                                     (IFACE env ''Verts:%s/%s | Edges:%s/%s | Faces:%s/%s | Tris:%s'')
                                     [fmt_totvertsel stats_fmt, fmt_totvert stats_fmt,
                                      fmt_totedgesel stats_fmt, fmt_totedge stats_fmt,
                                      fmt_totfacesel stats_fmt, fmt_totface stats_fmt,
                                      fmt_tottri stats_fmt]
                             else if ob_type obedit' = OB_ARMATURE then
                               s @ BLI_snprintf (MAX_INFO_LEN - length s)
                                     (IFACE env ''Verts:%s/%s | Bones:%s/%s'')
                                     [fmt_totvertsel stats_fmt, fmt_totvert stats_fmt,
                                      fmt_totbonesel stats_fmt, fmt_totbone stats_fmt]
                             else
                               s @ BLI_snprintf (MAX_INFO_LEN - length s)
                                     (IFACE env ''Verts:%s/%s'')
                                     [fmt_totvertsel stats_fmt, fmt_totvert stats_fmt]);
                        s = s @ BLI_strncpy_rlen (MAX_INFO_LEN - length s) memstr
                    in s @ BLI_strncpy_rlen (MAX_INFO_LEN - length s) gpumemstr)
               | None \<Rightarrow>
                   (if (case ob of Some ob' \<Rightarrow> (object_mode AND OB_MODE_POSE) \<noteq> 0
                        | None \<Rightarrow> False) then
                      s @ BLI_snprintf (MAX_INFO_LEN - length s)
                            (IFACE env ''Bones:%s/%s %s%s'')
                            [fmt_totbonesel stats_fmt, fmt_totbone stats_fmt, memstr, gpumemstr]
                    else if (case ob of Some ob' \<Rightarrow> ob_type ob' = OB_GPENCIL
                             | None \<Rightarrow> False) then
                      (let s = s @ BLI_snprintf (MAX_INFO_LEN - length s)
                                     (IFACE env
                                        ''Layers:%s | Frames:%s | Strokes:%s | Points:%s | Objects:%s/%s'')
                                     [fmt_totgplayer stats_fmt, fmt_totgpframe stats_fmt,
                                      fmt_totgpstroke stats_fmt, fmt_totgppoint stats_fmt,
                                      fmt_totobjsel stats_fmt, fmt_totobj stats_fmt];
                           s = s @ BLI_strncpy_rlen (MAX_INFO_LEN - length s) memstr
                       in s @ BLI_strncpy_rlen (MAX_INFO_LEN - length s) gpumemstr)
                    else if stats_is_object_dynamic_topology_sculpt ob object_mode then
                      s @ BLI_snprintf (MAX_INFO_LEN - length s)
                            (IFACE env ''Verts:%s | Tris:%s%s'')
                            [fmt_totvert stats_fmt, fmt_tottri stats_fmt, gpumemstr]
                    else
                      s @ BLI_snprintf (MAX_INFO_LEN - length s)
                            (IFACE env ''Verts:%s | Faces:%s | Tris:%s | Objects:%s/%s%s%s'')
                            [fmt_totvert stats_fmt, fmt_totface stats_fmt, fmt_tottri stats_fmt,
                             fmt_totobjsel stats_fmt, fmt_totobj stats_fmt, memstr, gpumemstr]))
      in s)"

definition stats_string_text :: "Env \<Rightarrow> ViewLayer \<Rightarrow> SceneStats \<Rightarrow> string" where
  "stats_string_text env view_layer stats =
     (let s = stats_string_body env (OBACT view_layer) (active_collection_name view_layer)
                (stats_string_fmt env stats)
      in s @ BLI_snprintf (MAX_INFO_LEN - length s) '' | %s'' [versionstr env])"

text \<open>
  \<open>stats_string\<close> follows \<open>view_layer->stats\<close> without a test; \<open>None\<close> is the
  dereference of a null pointer.
\<close>

definition stats_string :: "Env \<Rightarrow> ViewLayer \<Rightarrow> ViewLayer option" where
  "stats_string env view_layer =
     (case vl_stats view_layer of
        None \<Rightarrow> None
      | Some stats \<Rightarrow>
          Some (view_layer\<lparr>vl_stats :=
                  Some (stats\<lparr>infostr := stats_string_text env view_layer stats\<rparr>)\<rparr>))"

definition ED_info_stats_clear :: "ViewLayer \<Rightarrow> ViewLayer" where
  "ED_info_stats_clear view_layer =
     (if vl_stats view_layer \<noteq> None then view_layer\<lparr>vl_stats := None\<rparr> else view_layer)"

text \<open>
  \<open>ED_info_stats_string\<close> returns the string next to the scene and the view layer it
  leaves behind; \<open>None\<close> is the dereference of a null pointer.
\<close>

definition ED_info_stats_string ::
  "Env \<Rightarrow> Scene \<Rightarrow> ViewLayer \<Rightarrow> (string \<times> Scene \<times> ViewLayer) option" where
  "ED_info_stats_string env scene view_layer =
     (let depsgraph = BKE_scene_get_depsgraph scene;
          updated = (if vl_stats view_layer = None then stats_update depsgraph view_layer
                     else Some (depsgraph, view_layer))
      in (case updated of
            None \<Rightarrow> None
          | Some (depsgraph', view_layer') \<Rightarrow>
              (case stats_string env view_layer' of
                 None \<Rightarrow> None
               | Some view_layer'' \<Rightarrow>
                   (case vl_stats view_layer'' of
                      None \<Rightarrow> None
                    | Some stats \<Rightarrow>
                        Some (infostr stats, scene\<lparr>scene_depsgraph := depsgraph'\<rparr>,
                              view_layer'')))))"

section \<open>Reference definitions\<close>

text \<open>
  What one edit bone adds to the vertex total and to the selected-vertex total, in the
  words of the description of the armature walker: two points, or one when the bone is
  connected and has a parent; one for a selected tip and one for a selected root, less
  one when the bone is connected, its root is selected and the tip of its parent is
  selected.
\<close>

definition spec_bone_verts :: "EditBone \<Rightarrow> 64 word" where
  "spec_bone_verts ebo =
     (if (ebo_flag ebo AND BONE_CONNECTED) \<noteq> 0 \<and> ebo_parent ebo \<noteq> None then 1 else 2)"

definition spec_bone_vertsel :: "EditBone \<Rightarrow> 64 word" where
  "spec_bone_vertsel ebo =
     (if (ebo_flag ebo AND BONE_TIPSEL) \<noteq> 0 then 1 else 0)
     + (if (ebo_flag ebo AND BONE_ROOTSEL) \<noteq> 0 then 1 else 0)
     - (if (ebo_flag ebo AND BONE_CONNECTED) \<noteq> 0 \<and> (ebo_flag ebo AND BONE_ROOTSEL) \<noteq> 0
           \<and> (case ebo_parent ebo of
                 Some p \<Rightarrow> (ebo_flag p AND BONE_TIPSEL) \<noteq> 0
               | None \<Rightarrow> False)
        then 1 else 0)"

text \<open>The six selected sub-counters of the accumulator.\<close>

definition selected_counters ::
  "SceneStats \<Rightarrow> 64 word \<times> 64 word \<times> 64 word \<times> 64 word \<times> 64 word \<times> 64 word" where
  "selected_counters stats =
     (totvertsel stats, totedgesel stats, totfacesel stats, totbonesel stats,
      totobjsel stats, totlampsel stats)"

text \<open>
  The objects of a collection in the order of the description of the duplication
  expander: depth-first, the members of a collection before its child collections. The
  shares of the \<open>n\<close> members of a collection drawn by a particle system, in this order,
  are the results of \<open>count_particles_mod\<close> for the indices from 0.
\<close>

fun collection_objects :: "Collection \<Rightarrow> Object list"
  and collection_objects_children :: "Collection list \<Rightarrow> Object list" where
  "collection_objects (Collection obs chs) = obs @ collection_objects_children chs"
| "collection_objects_children [] = []"
| "collection_objects_children (child # chs) =
     collection_objects child @ collection_objects_children chs"

definition spec_shares :: "ParticleSystem \<Rightarrow> nat \<Rightarrow> 32 word list" where
  "spec_shares psys n = map (\<lambda>i. count_particles_mod psys (of_nat n) (of_nat i)) [0..<n]"

text \<open>
  The mode classifier in the words of its description: the four modes and the rules
  in priority order, for an active object and an edit object. The counters that only
  the object-mode walker writes, and the counters that it never writes.
\<close>

datatype Mode = Edit | Pose | SculptDynamicTopology | ObjectMode

definition classify :: "Object option \<Rightarrow> Object option \<Rightarrow> Mode" where
  "classify activeObject editObject =
     (if editObject \<noteq> None then Edit
      else if (case activeObject of
                 Some ob \<Rightarrow> (mode ob AND OB_MODE_POSE) \<noteq> 0
               | None \<Rightarrow> False) then Pose
      else if (case activeObject of
                 Some ob \<Rightarrow>
                   (mode ob AND OB_MODE_SCULPT) \<noteq> 0
                   \<and> (case sculpt ob of Some ss \<Rightarrow> sculpt_bm ss \<noteq> None | None \<Rightarrow> False)
               | None \<Rightarrow> False) then SculptDynamicTopology
      else ObjectMode)"

definition object_mode_counters ::
  "SceneStats \<Rightarrow> (64 word \<times> 64 word \<times> 64 word \<times> 64 word) \<times> (64 word \<times> 64 word \<times> 64 word \<times> 64 word)" where
  "object_mode_counters stats =
     ((totobj stats, totobjsel stats, totlamp stats, totlampsel stats),
      (totgplayer stats, totgpframe stats, totgpstroke stats, totgppoint stats))"

definition bone_counters :: "SceneStats \<Rightarrow> 64 word \<times> 64 word \<times> 64 word" where
  "bone_counters stats = (totbone stats, totbonesel stats, totedgesel stats)"

text \<open>
  What a recomputation in object mode does to the store of grease-pencil data: the
  block at an address that a selected grease-pencil object among the evaluated objects
  points to has its stored totals recomputed, for every object that points to it; any
  other block stays as it is.
\<close>

definition gp_selected :: "Object list \<Rightarrow> nat \<Rightarrow> bool" where
  "gp_selected obs p =
     list_ex (\<lambda>ob. ob_type ob = OB_GPENCIL \<and> (base_flag ob AND BASE_SELECTED) \<noteq> 0
                   \<and> gpd (data ob) = p) obs"

definition gp_refreshed :: "Object list \<Rightarrow> (nat \<Rightarrow> bGPdata) \<Rightarrow> nat \<Rightarrow> bGPdata" where
  "gp_refreshed obs gpencils p =
     (if gp_selected obs p then BKE_gpencil_stats_update (gpencils p) else gpencils p)"

text \<open>
  The grease-pencil data that an object points to in a dependency graph, and the data
  that each evaluated object points to after a recomputation.
\<close>

definition object_gpd :: "Depsgraph \<Rightarrow> Object \<Rightarrow> bGPdata" where
  "object_gpd depsgraph ob = dg_gpencils depsgraph (gpd (data ob))"

definition gpd_after_update :: "Depsgraph \<Rightarrow> ViewLayer \<Rightarrow> bGPdata list option" where
  "gpd_after_update depsgraph view_layer =
     map_option (\<lambda>(depsgraph', view_layer'). map (object_gpd depsgraph') (dg_objects depsgraph'))
       (stats_update depsgraph view_layer)"

text \<open>
  Counts in range. Every contribution to a counter is an \<open>int\<close> turned into 64 bits; it
  is in range when it is not negative, so that it is less than \<open>step_bound\<close>. A pair of a
  selected counter and its total is in order, for a bound \<open>B\<close>, when the selected counter
  does not exceed the total and the total does not exceed \<open>B\<close>. The product of a count
  and a multiplier is in range when both are not negative and the product fits in
  \<open>int\<close>.
\<close>

definition step_bound :: nat where "step_bound = 2 ^ 31"

definition pair_ok :: "nat \<Rightarrow> 64 word \<Rightarrow> 64 word \<Rightarrow> bool" where
  "pair_ok B sel tot \<longleftrightarrow> sel \<le> tot \<and> unat tot \<le> B"

definition mult_in_range :: "32 word \<Rightarrow> 32 word \<Rightarrow> bool" where
  "mult_in_range a b \<longleftrightarrow> 0 \<le> sint a \<and> 0 \<le> sint b \<and> sint a * sint b < 2 ^ 31"


definition geometry_in_range :: "nat \<Rightarrow> SceneStats \<Rightarrow> bool" where
  "geometry_in_range B stats \<longleftrightarrow>
     pair_ok B (totvertsel stats) (totvert stats)
     \<and> pair_ok B (totfacesel stats) (totface stats)
     \<and> pair_ok B (totbonesel stats) (totbone stats)"

definition counters_in_range :: "nat \<Rightarrow> SceneStats \<Rightarrow> bool" where
  "counters_in_range B stats \<longleftrightarrow>
     geometry_in_range B stats \<and> pair_ok B (totobjsel stats) (totobj stats)"

definition selected_le_total :: "SceneStats \<Rightarrow> bool" where
  "selected_le_total stats \<longleftrightarrow>
     totvertsel stats \<le> totvert stats \<and> totfacesel stats \<le> totface stats
     \<and> totbonesel stats \<le> totbone stats \<and> totobjsel stats \<le> totobj stats"

text \<open>
  The counts that one call of the per-object counter multiplies are in range: for an
  object whose evaluated mesh is read, the vertex and polygon totals with the
  multiplier, and the multiplier is at least 1 when the object is counted as selected;
  for an object counted from its display list, the summed vertex and face counts with
  the multiplier.
\<close>

definition displist_counts :: "Object \<Rightarrow> 32 word \<times> 32 word \<times> 32 word" where
  "displist_counts ob =
     (case curve_cache (runtime ob) of
        Some cc \<Rightarrow> BKE_displist_count (disp cc) (0, 0, 0)
      | None \<Rightarrow> (0, 0, 0))"

definition stats_object_in_range :: "Object \<Rightarrow> 32 word \<Rightarrow> 32 word \<Rightarrow> bool" where
  "stats_object_in_range ob sel totob =
     (if ob_type ob \<in> {OB_MESH, OB_SURF, OB_CURVE, OB_FONT} \<and> mesh_eval (runtime ob) \<noteq> None
      then (case mesh_eval (runtime ob) of
              Some me \<Rightarrow>
                mult_in_range (me_totvert me) totob \<and> mult_in_range (me_totpoly me) totob
                \<and> (sel \<noteq> 0 \<longrightarrow> 1 \<le> sint totob)
            | None \<Rightarrow> True)
      else if ob_type ob \<in> {OB_SURF, OB_CURVE, OB_FONT, OB_MBALL}
      then (case displist_counts ob of
              (totv, totf, tottri') \<Rightarrow> mult_in_range totv totob \<and> mult_in_range totf totob)
      else True)"

text \<open>
  An evaluated object is in range when its instance multiplier (the one the branch of
  \<open>stats_dupli_object\<close> for the object takes) is not negative, and at least 1 when the
  object is selected, its own counts are in range with this multiplier, and, for an
  object with particle duplication, the counts of every particle target are in range
  with the target's multiplier. \<open>object_calls\<close> is the number of calls of the per-object
  counter that the object causes.
\<close>

definition psys_in_range :: "ParticleSystem \<Rightarrow> bool" where
  "psys_in_range psys =
     (if draw_as (part psys) = PART_DRAW_OB \<and> dup_ob (part psys) \<noteq> None then
        (case dup_ob (part psys) of
           Some target \<Rightarrow> stats_object_in_range target 0 (count_particles psys)
         | None \<Rightarrow> True)
      else if draw_as (part psys) = PART_DRAW_GR \<and> dup_group (part psys) \<noteq> None then
        (case dup_group (part psys) of
           Some collection \<Rightarrow>
             list_all (\<lambda>(ob, tot). stats_object_in_range ob 0 tot)
               (zip (collection_objects collection)
                  (spec_shares psys (length (collection_objects collection))))
         | None \<Rightarrow> True)
      else True)"

definition psys_calls :: "ParticleSystem \<Rightarrow> nat" where
  "psys_calls psys =
     (if draw_as (part psys) = PART_DRAW_OB \<and> dup_ob (part psys) \<noteq> None then 1
      else if draw_as (part psys) = PART_DRAW_GR \<and> dup_group (part psys) \<noteq> None then
        (case dup_group (part psys) of
           Some collection \<Rightarrow> length (collection_objects collection)
         | None \<Rightarrow> 0)
      else 0)"

definition dupli_multiplier :: "Object \<Rightarrow> 32 word" where
  "dupli_multiplier ob =
     (if (transflag ob AND OB_DUPLIPARTS) \<noteq> 0 then 1
      else if (case parent ob of
                 Some pa \<Rightarrow> (transflag pa AND (OB_DUPLIVERTS OR OB_DUPLIFACES)) \<noteq> 0
               | None \<Rightarrow> False) then
        (if ob_type ob = OB_MBALL then 1
         else (case parent ob of Some pa \<Rightarrow> count_duplilist pa | None \<Rightarrow> 0))
      else if (transflag ob AND OB_DUPLIFRAMES) \<noteq> 0 then count_duplilist ob
      else if (transflag ob AND OB_DUPLICOLLECTION) \<noteq> 0 \<and> ob_dup_group ob \<noteq> None
      then count_duplilist ob
      else 1)"

definition object_in_range :: "Object \<Rightarrow> bool" where
  "object_in_range ob =
     (let is_selected = ((base_flag ob AND BASE_SELECTED) \<noteq> 0);
          tot = dupli_multiplier ob
      in 0 \<le> sint tot \<and> (is_selected \<longrightarrow> 1 \<le> sint tot)
         \<and> stats_object_in_range ob (if is_selected then 1 else 0) tot
         \<and> ((transflag ob AND OB_DUPLIPARTS) \<noteq> 0
              \<longrightarrow> list_all psys_in_range (particlesystem ob)))"

definition object_calls :: "Object \<Rightarrow> nat" where
  "object_calls ob =
     1 + (if (transflag ob AND OB_DUPLIPARTS) \<noteq> 0
          then sum_list (map psys_calls (particlesystem ob)) else 0)"

text \<open>
  Edit data is in range when the selected counters of an edit mesh are not negative and
  do not exceed its totals, and when every connected edit bone whose root and tip are
  both selected has a parent with a selected tip (root and parent tip are one point and
  are selected together). \<open>edit_calls\<close> is the number of elements the edit walker counts
  for an object.
\<close>

definition bmesh_in_range :: "BMesh \<Rightarrow> bool" where
  "bmesh_in_range b \<longleftrightarrow>
     0 \<le> sint (bm_totvertsel b) \<and> sint (bm_totvertsel b) \<le> sint (bm_totvert b)
     \<and> 0 \<le> sint (bm_totfacesel b) \<and> sint (bm_totfacesel b) \<le> sint (bm_totface b)"

definition bone_in_range :: "EditBone \<Rightarrow> bool" where
  "bone_in_range ebo \<longleftrightarrow>
     ((ebo_flag ebo AND BONE_CONNECTED) \<noteq> 0 \<and> (ebo_flag ebo AND BONE_TIPSEL) \<noteq> 0
        \<and> (ebo_flag ebo AND BONE_ROOTSEL) \<noteq> 0
      \<longrightarrow> (case ebo_parent ebo of
             Some p \<Rightarrow> (ebo_flag p AND BONE_TIPSEL) \<noteq> 0
           | None \<Rightarrow> True))"

definition edit_in_range :: "Object \<Rightarrow> bool" where
  "edit_in_range obedit =
     (if ob_type obedit = OB_MESH then bmesh_in_range (bm (edit_btmesh (data obedit)))
      else if ob_type obedit = OB_ARMATURE
      then list_all bone_in_range (edbo (arm (data obedit)))
      else True)"

definition nurb_calls :: "Nurb \<Rightarrow> nat" where
  "nurb_calls nu = (if nu_type nu = CU_BEZIER then length (bezt nu) else length (bp nu))"

definition edit_calls :: "Object \<Rightarrow> nat" where
  "edit_calls obedit =
     (if ob_type obedit = OB_MESH then 1
      else if ob_type obedit = OB_ARMATURE then length (edbo (arm (data obedit)))
      else if ob_type obedit = OB_CURVE \<or> ob_type obedit = OB_SURF
      then sum_list (map nurb_calls (editnurb (data obedit)))
      else if ob_type obedit = OB_MBALL then length (editelems (data obedit))
      else if ob_type obedit = OB_LATTICE then length (editlatt_def (data obedit))
      else 0)"

text \<open>
  A scene is in range for a recomputation when what the walker of its mode reads is: in
  edit mode the objects of the edit session, in object mode the evaluated objects, with
  fewer than \<open>2 ^ 32\<close> counted items in either; in pose mode fewer than \<open>2 ^ 32\<close> pose
  channels.
\<close>

definition scene_in_range :: "Depsgraph \<Rightarrow> ViewLayer \<Rightarrow> bool" where
  "scene_in_range depsgraph view_layer =
     (case classify (OBACT view_layer) (OBEDIT_FROM_VIEW_LAYER view_layer) of
        Edit \<Rightarrow>
          list_all edit_in_range (objects_in_mode view_layer)
          \<and> sum_list (map edit_calls (objects_in_mode view_layer)) < 2 ^ 32
      | Pose \<Rightarrow>
          (case OBACT view_layer of
             Some ob \<Rightarrow>
               (case pose ob of Some po \<Rightarrow> length (chanbase po) < 2 ^ 32 | None \<Rightarrow> True)
           | None \<Rightarrow> True)
      | SculptDynamicTopology \<Rightarrow> True
      | ObjectMode \<Rightarrow>
          list_all object_in_range (dg_objects depsgraph)
          \<and> sum_list (map object_calls (dg_objects depsgraph)) < 2 ^ 32)"

section \<open>Concrete scenes\<close>

text \<open>
  An object without evaluated geometry and with empty data blocks, and a store whose
  grease-pencil data blocks are all empty.
\<close>

definition runtime_none :: Object_Runtime where
  "runtime_none = \<lparr>mesh_eval = None, curve_cache = None\<rparr>"

definition data_none :: Object_Data where
  "data_none =
     \<lparr>edit_btmesh =
        \<lparr>bm = \<lparr>bm_totvert = 0, bm_totedge = 0, bm_totface = 0, bm_totvertsel = 0,
                bm_totedgesel = 0, bm_totfacesel = 0\<rparr>,
         em_tottri = 0\<rparr>,
      arm = \<lparr>edbo = [], arm_layer = 0\<rparr>,
      editnurb = [], editelems = [], editlatt_def = [],
      gpd = 0,
      keyblock = False\<rparr>"

definition gpencils_none :: "nat \<Rightarrow> bGPdata" where
  "gpencils_none =
     (\<lambda>p. \<lparr>layers = [], totlayer = 0, totframe = 0, totstroke = 0, totpoint = 0\<rparr>)"

text \<open>
  An armature in edit mode with a root bone whose tip is selected and a connected child
  whose root and tip are selected.
\<close>

definition armature_two_bones :: Object where
  "armature_two_bones =
     Object OB_ARMATURE OB_MODE_EDIT 0 0 ''Armature'' runtime_none
       (data_none\<lparr>arm :=
          \<lparr>edbo = [EditBone BONE_TIPSEL None,
                   EditBone (BONE_CONNECTED OR BONE_ROOTSEL OR BONE_TIPSEL)
                     (Some (EditBone BONE_TIPSEL None))],
           arm_layer = 1\<rparr>\<rparr>)
       None None None [] None 1"

text \<open>
  A selected mesh object whose evaluated mesh is a cube of six quads, and a particle
  system of ten live particles that draws this object.
\<close>

definition mesh_cube :: Mesh where
  "mesh_cube = \<lparr>me_totvert = 8, me_totedge = 12, me_totpoly = 6, me_totloop = 24\<rparr>"

definition object_cube :: Object where
  "object_cube =
     Object OB_MESH OB_MODE_OBJECT BASE_SELECTED 0 ''Cube''
       \<lparr>mesh_eval = Some mesh_cube, curve_cache = None\<rparr> data_none
       None None None [] None 1"

definition psys_cube :: ParticleSystem where
  "psys_cube = ParticleSystem (ParticleSettings PART_DRAW_OB (Some object_cube) None) 10"

text \<open>
  A selected lamp, a collection of three member objects (two direct members and one in
  a child collection), and a particle system of ten live particles that draws the
  collection.
\<close>

definition lamp_object :: Object where
  "lamp_object =
     Object OB_LAMP OB_MODE_OBJECT BASE_SELECTED 0 ''Lamp'' runtime_none data_none
       None None None [] None 1"

definition collection_three :: Collection where
  "collection_three = Collection [object_cube, lamp_object] [Collection [object_cube] []]"

definition psys_collection :: ParticleSystem where
  "psys_collection =
     ParticleSystem (ParticleSettings PART_DRAW_GR None (Some collection_three)) 10"

text \<open>A view layer whose active object is the armature in edit mode.\<close>

definition view_layer_edit :: ViewLayer where
  "view_layer_edit =
     \<lparr>basact = Some armature_two_bones, objects_in_mode = [armature_two_bones],
      active_collection_name = ''Collection'', vl_stats = None\<rparr>"

text \<open>
  Collaborators for concrete runs: numbers are printed in plain decimal, a byte count as
  its decimal followed by \<open>B\<close>, interface strings are not translated, there is no GPU
  accounting; and the same with a higher reading of the memory in use. A scene of the selected cube, an empty scene, and a view layer in object
  mode whose active object is the cube, with the accumulator and the string that a
  recomputation gives for it.
\<close>

fun decimal :: "nat \<Rightarrow> string" where
  "decimal n =
     (if n < 10 then [char_of (48 + n)] else decimal (n div 10) @ [char_of (48 + n mod 10)])"

definition env_plain :: Env where
  "env_plain =
     \<lparr>mem_in_use = 1000, mmap_in_use = 0, GPU_mem_stats_supported = False,
      gpu_free_mem = 0, gpu_tot_memory = 0, versionstr = ''v2.80.1'',
      BLI_str_format_uint64_grouped = (\<lambda>n. decimal (unat n)),
      BLI_str_format_byte_unit = (\<lambda>n. decimal (unat n) @ '' B''),
      IFACE = (\<lambda>msgid. msgid)\<rparr>"


definition scene_cube :: Scene where
  "scene_cube =
     \<lparr>scene_depsgraph = \<lparr>dg_objects = [object_cube], dg_gpencils = gpencils_none\<rparr>\<rparr>"


definition view_layer_cube :: ViewLayer where
  "view_layer_cube =
     \<lparr>basact = Some object_cube, objects_in_mode = [],
      active_collection_name = ''Collection'', vl_stats = None\<rparr>"

definition stats_cube :: SceneStats where
  "stats_cube =
     stats_zero\<lparr>totvert := 8, totvertsel := 8, totedge := 12, totface := 6, totfacesel := 6,
       totobj := 1, totobjsel := 1, tottri := 12,
       infostr := ''Collection | Cube | Verts:8 | Faces:6 | Tris:12 | Objects:1/1 | Mem: 1000 B | v2.80.1''\<rparr>"

text \<open>
  Degraded inputs: a mesh object without an evaluated mesh, a curve without an evaluated
  mesh and with an empty display list, an armature in pose mode without a pose, a
  particle system whose target object is absent, a particle system that draws a
  collection without objects, a scene of an emitter with these two systems and of the
  curve, and a view layer without an active object.
\<close>

definition object_mesh_missing :: Object where
  "object_mesh_missing =
     Object OB_MESH OB_MODE_OBJECT BASE_SELECTED 0 ''Mesh'' runtime_none data_none
       None None None [] None 1"

definition object_curve_missing :: Object where
  "object_curve_missing =
     Object OB_CURVE OB_MODE_OBJECT BASE_SELECTED 0 ''Curve''
       \<lparr>mesh_eval = None, curve_cache = Some \<lparr>disp = []\<rparr>\<rparr> data_none
       None None None [] None 1"

definition object_pose_missing :: Object where
  "object_pose_missing =
     Object OB_ARMATURE OB_MODE_POSE BASE_SELECTED 0 ''Armature'' runtime_none data_none
       None None None [] None 1"

definition psys_no_target :: ParticleSystem where
  "psys_no_target = ParticleSystem (ParticleSettings PART_DRAW_OB None None) 10"

definition collection_empty :: Collection where
  "collection_empty = Collection [] [Collection [] []]"

definition psys_empty_collection :: ParticleSystem where
  "psys_empty_collection =
     ParticleSystem (ParticleSettings PART_DRAW_GR None (Some collection_empty)) 10"

definition scene_degraded :: Scene where
  "scene_degraded =
     \<lparr>scene_depsgraph =
        \<lparr>dg_objects =
           [Object OB_MESH OB_MODE_OBJECT 0 OB_DUPLIPARTS ''Emitter'' runtime_none data_none
              None None None [psys_no_target, psys_empty_collection] None 1,
            object_curve_missing],
         dg_gpencils = gpencils_none\<rparr>\<rparr>"

definition view_layer_none :: ViewLayer where
  "view_layer_none =
     \<lparr>basact = None, objects_in_mode = [], active_collection_name = ''Collection'',
      vl_stats = None\<rparr>"

text \<open>
  Grease-pencil data with one layer, one frame and one stroke of three points but stored
  totals of zero, and the same data with the totals recomputed. A selected
  grease-pencil object and an unselected one that point to the same data block, at
  address 1, and an unselected one that points to a block of its own, at address 2; the
  dependency graph of the three, in which both blocks hold the data with totals of zero.
\<close>

definition gpd_stale :: bGPdata where
  "gpd_stale =
     \<lparr>layers = [\<lparr>frames = [\<lparr>strokes = [\<lparr>totpoints = 3\<rparr>]\<rparr>]\<rparr>],
      totlayer = 0, totframe = 0, totstroke = 0, totpoint = 0\<rparr>"

definition gpd_counted :: bGPdata where
  "gpd_counted = gpd_stale\<lparr>totlayer := 1, totframe := 1, totstroke := 1, totpoint := 3\<rparr>"

definition object_gpencil :: Object where
  "object_gpencil =
     Object OB_GPENCIL OB_MODE_OBJECT BASE_SELECTED 0 ''GPencil'' runtime_none
       (data_none\<lparr>gpd := 1\<rparr>) None None None [] None 1"

definition object_gpencil_shared :: Object where
  "object_gpencil_shared =
     Object OB_GPENCIL OB_MODE_OBJECT 0 0 ''GPencil.001'' runtime_none
       (data_none\<lparr>gpd := 1\<rparr>) None None None [] None 1"

definition object_gpencil_other :: Object where
  "object_gpencil_other =
     Object OB_GPENCIL OB_MODE_OBJECT 0 0 ''GPencil.002'' runtime_none
       (data_none\<lparr>gpd := 2\<rparr>) None None None [] None 1"

definition depsgraph_gpencil :: Depsgraph where
  "depsgraph_gpencil =
     \<lparr>dg_objects = [object_gpencil, object_gpencil_shared, object_gpencil_other],
      dg_gpencils = gpencils_none(1 := gpd_stale, 2 := gpd_stale)\<rparr>"

text \<open>
  A selected cube with frame duplication whose instance count is zero, with the
  accumulator of its scene; and an armature in edit mode with a root bone and two
  connected children whose roots are selected while the tip of the parent is not, with
  its view layer and accumulator.
\<close>

definition object_cube_noframes :: Object where
  "object_cube_noframes =
     Object OB_MESH OB_MODE_OBJECT BASE_SELECTED OB_DUPLIFRAMES ''Cube''
       \<lparr>mesh_eval = Some mesh_cube, curve_cache = None\<rparr> data_none
       None None None [] None 0"

definition depsgraph_noframes :: Depsgraph where
  "depsgraph_noframes = \<lparr>dg_objects = [object_cube_noframes], dg_gpencils = gpencils_none\<rparr>"

definition stats_noframes :: SceneStats where
  "stats_noframes = stats_zero\<lparr>totvertsel := 8, totfacesel := 6, totobjsel := 1\<rparr>"

definition armature_unsynced :: Object where
  "armature_unsynced =
     Object OB_ARMATURE OB_MODE_EDIT 0 0 ''Armature'' runtime_none
       (data_none\<lparr>arm :=
          \<lparr>edbo = [EditBone BONE_ROOTSEL None,
                   EditBone (BONE_CONNECTED OR BONE_ROOTSEL OR BONE_TIPSEL)
                     (Some (EditBone BONE_ROOTSEL None)),
                   EditBone (BONE_CONNECTED OR BONE_ROOTSEL OR BONE_TIPSEL)
                     (Some (EditBone BONE_ROOTSEL None))],
           arm_layer = 1\<rparr>\<rparr>)
       None None None [] None 1"

definition view_layer_unsynced :: ViewLayer where
  "view_layer_unsynced =
     \<lparr>basact = Some armature_unsynced, objects_in_mode = [armature_unsynced],
      active_collection_name = ''Collection'', vl_stats = None\<rparr>"

definition stats_unsynced :: SceneStats where
  "stats_unsynced = stats_zero\<lparr>totvert := 4, totvertsel := 5, totbone := 3\<rparr>"

section \<open>Properties\<close>

subsection \<open>The armature walker\<close>

lemma edit_bone_totbone: "totbone (stats_object_edit_bone ebo s) = totbone s + 1"
  by (simp add: stats_object_edit_bone_def Let_def)

lemma edit_bone_totvert: "totvert (stats_object_edit_bone ebo s) = totvert s + spec_bone_verts ebo"
  by (simp add: stats_object_edit_bone_def Let_def spec_bone_verts_def)

lemma edit_bone_totvertsel:
  "totvertsel (stats_object_edit_bone ebo s) = totvertsel s + spec_bone_vertsel ebo"
  by (simp add: stats_object_edit_bone_def Let_def spec_bone_vertsel_def split: option.split)

lemma edit_bones_totbone:
  "totbone (stats_object_edit_bones ebos s) = totbone s + of_nat (length ebos)"
  by (induction ebos arbitrary: s) (simp_all add: edit_bone_totbone)

lemma edit_bones_totvert:
  "totvert (stats_object_edit_bones ebos s) = totvert s + sum_list (map spec_bone_verts ebos)"
  by (induction ebos arbitrary: s) (simp_all add: edit_bone_totvert add.assoc)

lemma edit_bones_totvertsel:
  "totvertsel (stats_object_edit_bones ebos s) = totvertsel s + sum_list (map spec_bone_vertsel ebos)"
  by (induction ebos arbitrary: s) (simp_all add: edit_bone_totvertsel add.assoc)

text \<open>
  Claim C1. In edit mode the walker over an armature adds one to the bone total for
  every edit bone; it adds two to the vertex total for every bone, or one when the bone
  is flagged connected and has a parent; a selected tip and a selected root each add
  one to the selected-vertex total, and one is taken off for a connected bone whose
  root is selected and whose parent has its tip selected. All counters are 64-bit and
  the sums are taken in them. An armature of a root bone and one connected child of
  it, counted from the zero accumulator, has three vertices and two bones.
\<close>

theorem armature_edit_counts:
  assumes "ob_type obedit = OB_ARMATURE"
  shows "totbone (stats_object_edit obedit stats)
           = totbone stats + of_nat (length (edbo (arm (data obedit))))
       \<and> totvert (stats_object_edit obedit stats)
           = totvert stats + sum_list (map spec_bone_verts (edbo (arm (data obedit))))
       \<and> totvertsel (stats_object_edit obedit stats)
           = totvertsel stats + sum_list (map spec_bone_vertsel (edbo (arm (data obedit))))
       \<and> (\<forall>root child.
            edbo (arm (data obedit)) = [root, child] \<and> ebo_parent root = None
            \<and> ebo_parent child = Some root \<and> (ebo_flag child AND BONE_CONNECTED) \<noteq> 0
            \<longrightarrow> totvert (stats_object_edit obedit stats_zero) = 3
                \<and> totbone (stats_object_edit obedit stats_zero) = 2)"
proof -
  have edit: "stats_object_edit obedit s = stats_object_edit_bones (edbo (arm (data obedit))) s"
    for s
    using assms by (simp add: stats_object_edit_def)
  have two: "totvert (stats_object_edit obedit stats_zero) = 3
       \<and> totbone (stats_object_edit obedit stats_zero) = 2"
    if "edbo (arm (data obedit)) = [root, child]" "ebo_parent root = None"
       "ebo_parent child = Some root" "(ebo_flag child AND BONE_CONNECTED) \<noteq> 0"
    for root child
    using that
    by (simp add: edit edit_bone_totbone edit_bone_totvert spec_bone_verts_def stats_zero_def)
  have counts: "totbone (stats_object_edit obedit stats)
           = totbone stats + of_nat (length (edbo (arm (data obedit))))
       \<and> totvert (stats_object_edit obedit stats)
           = totvert stats + sum_list (map spec_bone_verts (edbo (arm (data obedit))))
       \<and> totvertsel (stats_object_edit obedit stats)
           = totvertsel stats + sum_list (map spec_bone_vertsel (edbo (arm (data obedit))))"
    by (simp add: edit edit_bones_totbone edit_bones_totvert edit_bones_totvertsel)
  from counts two show ?thesis by blast
qed

theorem armature_edit_counts_witness:
  "ob_type armature_two_bones = OB_ARMATURE
   \<and> totbone (stats_object_edit armature_two_bones stats_zero) = 2
   \<and> totvert (stats_object_edit armature_two_bones stats_zero) = 3
   \<and> totvertsel (stats_object_edit armature_two_bones stats_zero) = 2"
proof -
  have ty: "ob_type armature_two_bones = OB_ARMATURE"
    by (simp add: armature_two_bones_def)
  show ?thesis
    using armature_edit_counts [OF ty, of stats_zero]
    by (simp add: armature_two_bones_def data_none_def spec_bone_verts_def
        spec_bone_vertsel_def stats_zero_def BONE_TIPSEL_def BONE_CONNECTED_def
        BONE_ROOTSEL_def)
qed

subsection \<open>The per-object counter on an evaluated mesh\<close>

lemma stats_mesheval_Some:
  "stats_mesheval (Some me) sel totob stats =
     (True,
      stats\<lparr>totvert := totvert stats + scast (me_totvert me * totob),
            totedge := totedge stats + scast (me_totedge me * totob),
            totface := totface stats + scast (me_totpoly me * totob),
            tottri := tottri stats
              + scast (poly_to_tri_count (me_totpoly me) (me_totloop me) * totob),
            totvertsel := totvertsel stats + (if sel \<noteq> 0 then scast (me_totvert me) else 0),
            totfacesel := totfacesel stats + (if sel \<noteq> 0 then scast (me_totpoly me) else 0)\<rparr>)"
  by (simp add: stats_mesheval_def Let_def)

lemma stats_mesheval_None: "stats_mesheval None sel totob stats = (False, stats)"
  by (simp add: stats_mesheval_def)

lemma stats_object_mesheval:
  assumes "ob_type ob \<in> {OB_MESH, OB_SURF, OB_CURVE, OB_FONT}"
    and "mesh_eval (runtime ob) = Some me"
  shows "stats_object gpds ob sel totob stats = (gpds, snd (stats_mesheval (Some me) sel totob stats))"
  using assms by (auto simp add: stats_object_def stats_mesheval_Some)

text \<open>
  Claim C5. When the per-object counter processes an object whose evaluated mesh it
  reads (a mesh, surface, curve or text object with an evaluated mesh), the vertex,
  edge, face and triangle totals grow by the counts of the mesh multiplied by the
  instance multiplier, the product taken in \<open>int\<close>; if the object is selected the
  selected-vertex and selected-face totals grow by the counts themselves, once,
  whatever the multiplier; nothing else changes.
\<close>

theorem evaluated_mesh_multiplier:
  assumes "ob_type ob \<in> {OB_MESH, OB_SURF, OB_CURVE, OB_FONT}"
    and "mesh_eval (runtime ob) = Some me"
  shows "stats_object gpds ob sel totob stats =
     (gpds,
      stats\<lparr>totvert := totvert stats + scast (me_totvert me * totob),
            totedge := totedge stats + scast (me_totedge me * totob),
            totface := totface stats + scast (me_totpoly me * totob),
            tottri := tottri stats
              + scast (poly_to_tri_count (me_totpoly me) (me_totloop me) * totob),
            totvertsel := totvertsel stats + (if sel \<noteq> 0 then scast (me_totvert me) else 0),
            totfacesel := totfacesel stats + (if sel \<noteq> 0 then scast (me_totpoly me) else 0)\<rparr>)"
  by (simp add: stats_object_mesheval [OF assms] stats_mesheval_Some)

theorem evaluated_mesh_multiplier_witness:
  "ob_type object_cube \<in> {OB_MESH, OB_SURF, OB_CURVE, OB_FONT}
   \<and> mesh_eval (runtime object_cube) = Some mesh_cube
   \<and> stats_object gpencils_none object_cube 1 5 stats_zero =
       (gpencils_none,
        stats_zero\<lparr>totvert := 40, totedge := 60, totface := 30, tottri := 60,
                   totvertsel := 8, totfacesel := 6\<rparr>)"
proof -
  have ty: "ob_type object_cube \<in> {OB_MESH, OB_SURF, OB_CURVE, OB_FONT}"
    by (simp add: object_cube_def)
  have me: "mesh_eval (runtime object_cube) = Some mesh_cube"
    by (simp add: object_cube_def)
  show ?thesis
    using evaluated_mesh_multiplier [OF ty me, of gpencils_none 1 5 stats_zero]
    by (simp add: object_cube_def mesh_cube_def poly_to_tri_count_def stats_zero_def)
qed

lemma poly_to_tri_count_sum:
  "poly_to_tri_count (of_nat (length ks)) (sum_list ks) = sum_list (map (\<lambda>k. k - 2) ks)"
  by (induction ks) (simp_all add: poly_to_tri_count_def algebra_simps)

text \<open>
  Claim C4. For an evaluated mesh that the per-object counter counts, with polygons of
  vertex counts \<open>ks\<close> (so the polygon total is their number and the loop total their
  sum), the triangle count taken from the two totals is the sum of \<open>k - 2\<close> over the
  polygons; the triangle total grows by this sum times the multiplier, and by the sum
  itself at multiplier one.
\<close>

theorem triangle_count:
  assumes "ob_type ob \<in> {OB_MESH, OB_SURF, OB_CURVE, OB_FONT}"
    and "mesh_eval (runtime ob) = Some me"
    and "me_totpoly me = of_nat (length ks)"
    and "me_totloop me = sum_list ks"
  shows "poly_to_tri_count (me_totpoly me) (me_totloop me) = sum_list (map (\<lambda>k. k - 2) ks)
       \<and> tottri (snd (stats_object gpds ob sel totob stats))
           = tottri stats + scast (sum_list (map (\<lambda>k. k - 2) ks) * totob)
       \<and> tottri (snd (stats_object gpds ob sel 1 stats))
           = tottri stats + scast (sum_list (map (\<lambda>k. k - 2) ks))"
  using assms(3,4)
  by (simp add: stats_object_mesheval [OF assms(1,2)] stats_mesheval_Some poly_to_tri_count_sum)

theorem triangle_count_witness:
  "ob_type object_cube \<in> {OB_MESH, OB_SURF, OB_CURVE, OB_FONT}
   \<and> mesh_eval (runtime object_cube) = Some mesh_cube
   \<and> me_totpoly mesh_cube = of_nat (length [4, 4, 4, 4, 4, 4 :: 32 word])
   \<and> me_totloop mesh_cube = sum_list [4, 4, 4, 4, 4, 4]
   \<and> tottri (snd (stats_object gpencils_none object_cube 0 1 stats_zero)) = 12"
proof -
  have ty: "ob_type object_cube \<in> {OB_MESH, OB_SURF, OB_CURVE, OB_FONT}"
    by (simp add: object_cube_def)
  have me: "mesh_eval (runtime object_cube) = Some mesh_cube"
    by (simp add: object_cube_def)
  have np: "me_totpoly mesh_cube = of_nat (length [4, 4, 4, 4, 4, 4 :: 32 word])"
    by (simp add: mesh_cube_def)
  have nl: "me_totloop mesh_cube = sum_list [4, 4, 4, 4, 4, 4]"
    by (simp add: mesh_cube_def)
  show ?thesis
    using triangle_count [OF ty me np nl, of gpencils_none 0 1 stats_zero]
    by (simp add: object_cube_def mesh_cube_def stats_zero_def)
qed

subsection \<open>Particle targets are counted with selection off\<close>

lemma stats_object_unselected:
  "fst (stats_object gpds ob 0 totob stats) = gpds
   \<and> selected_counters (snd (stats_object gpds ob 0 totob stats)) = selected_counters stats"
  by (simp add: stats_object_def stats_mesheval_def stats_object_displist_def Let_def
      selected_counters_def split: ObType.split option.split prod.split)

lemma group_doit_objects_selected:
  "selected_counters (fst (stats_dupli_object_group_doit_objects gpds obs stats psys totgroup cur))
     = selected_counters stats"
  by (induction obs arbitrary: stats cur) (simp_all add: stats_object_unselected Let_def)

lemma group_doit_selected:
  "selected_counters (fst (stats_dupli_object_group_doit gpds c stats psys totgroup cur))
     = selected_counters stats"
  "selected_counters (fst (stats_dupli_object_group_doit_children gpds cs stats psys totgroup cur))
     = selected_counters stats"
proof (induction gpds c stats psys totgroup cur and gpds cs stats psys totgroup cur
    rule: stats_dupli_object_group_doit_stats_dupli_object_group_doit_children.induct)
  case (1 gpds obs chs stats psys totgroup cur)
  then show ?case
    using group_doit_objects_selected [where gpds = gpds and obs = obs and stats = stats and cur = cur]
    by (simp split: prod.split) (metis fst_conv)
next
  case (2 gpds stats psys totgroup cur)
  then show ?case by simp
next
  case (3 gpds child chs stats psys totgroup cur)
  then show ?case
    by (simp split: prod.split) (metis fst_conv)
qed

lemma dupli_object_parts_selected:
  "selected_counters (stats_dupli_object_parts gpds psyss stats) = selected_counters stats"
  by (induction psyss arbitrary: stats)
    (auto simp add: stats_object_unselected group_doit_selected Let_def split: option.split)

text \<open>
  Claim C10. The object drawn by a particle system and every member of a collection
  drawn by a particle system is counted with selection off: whatever the base flag of
  the target says, neither the call of the per-object counter on the target, nor the
  walk over a collection, nor the whole loop over the particle systems of an object
  changes any selected sub-counter.
\<close>

theorem particle_targets_unselected:
  "selected_counters (snd (stats_object gpds target 0 tot stats)) = selected_counters stats
   \<and> selected_counters (fst (stats_dupli_object_group_doit gpds collection stats psys totgroup cur))
       = selected_counters stats
   \<and> selected_counters (stats_dupli_object_parts gpds psyss stats) = selected_counters stats"
  by (simp add: stats_object_unselected group_doit_selected dupli_object_parts_selected)

theorem particle_targets_unselected_witness:
  "(base_flag object_cube AND BASE_SELECTED) \<noteq> 0
   \<and> selected_counters (stats_dupli_object_parts gpencils_none [psys_cube] stats_zero)
       = (0, 0, 0, 0, 0, 0)
   \<and> totvert (stats_dupli_object_parts gpencils_none [psys_cube] stats_zero) = 80"
proof -
  have "selected_counters stats_zero = (0, 0, 0, 0, 0, 0)"
    by (simp add: selected_counters_def stats_zero_def)
  moreover have "totvert (stats_dupli_object_parts gpencils_none [psys_cube] stats_zero) = 80"
    by (simp add: psys_cube_def object_cube_def mesh_cube_def stats_object_def
        stats_mesheval_Some count_particles_def stats_zero_def)
  moreover have "(base_flag object_cube AND BASE_SELECTED) \<noteq> 0"
    by (simp add: object_cube_def BASE_SELECTED_def)
  ultimately show ?thesis
    using particle_targets_unselected [of gpencils_none object_cube 0 stats_zero
        "Collection [] []" psys_cube 0 0 "[psys_cube]"]
    by simp
qed

subsection \<open>Distribution of particles over a collection\<close>

lemma group_count_length:
  "stats_dupli_object_group_count c count = count + of_nat (length (collection_objects c))"
  "stats_dupli_object_group_count_children cs count
     = count + of_nat (length (collection_objects_children cs))"
  by (induction c count and cs count
      rule: stats_dupli_object_group_count_stats_dupli_object_group_count_children.induct)
    (simp_all add: add.assoc)

lemma group_doit_objects_append:
  "stats_dupli_object_group_doit_objects gpds (xs @ ys) stats psys totgroup cur =
     (case stats_dupli_object_group_doit_objects gpds xs stats psys totgroup cur of
        (stats', cur') \<Rightarrow> stats_dupli_object_group_doit_objects gpds ys stats' psys totgroup cur')"
  by (induction xs arbitrary: stats cur) (simp_all add: Let_def)

lemma group_doit_flat:
  "stats_dupli_object_group_doit gpds c stats psys totgroup cur
     = stats_dupli_object_group_doit_objects gpds (collection_objects c) stats psys totgroup cur"
  "stats_dupli_object_group_doit_children gpds cs stats psys totgroup cur
     = stats_dupli_object_group_doit_objects gpds (collection_objects_children cs) stats psys totgroup cur"
  by (induction gpds c stats psys totgroup cur and gpds cs stats psys totgroup cur
      rule: stats_dupli_object_group_doit_stats_dupli_object_group_doit_children.induct)
    (simp_all add: group_doit_objects_append split: prod.split)

lemma group_doit_objects_fold:
  "stats_dupli_object_group_doit_objects gpds obs stats psys totgroup cur =
     (foldl (\<lambda>s (ob, tot). snd (stats_object gpds ob 0 tot s)) stats
        (zip obs (map (\<lambda>i. count_particles_mod psys totgroup (cur + of_nat i)) [0..<length obs])),
      cur + of_nat (length obs))"
proof (induction obs arbitrary: stats cur)
  case Nil
  then show ?case by simp
next
  case (Cons ob obs)
  have upt: "[0..<Suc (length obs)] = 0 # map Suc [0..<length obs]"
    by (simp add: upt_conv_Cons map_Suc_upt del: upt_Suc)
  show ?case
    by (simp add: Cons.IH Let_def upt add.assoc o_def del: upt_Suc)
qed

lemma sum_list_indicator:
  "sum_list (map (\<lambda>i. if i < k then (1::'a::len word) else 0) [0..<n]) = of_nat (min k n)"
proof (induction n)
  case 0
  then show ?case by simp
next
  case (Suc n)
  consider "n < k" | "k \<le> n" by linarith
  then show ?case
  proof cases
    case 1
    then have "min k (Suc n) = Suc (min k n)" by simp
    with 1 Suc show ?thesis by simp
  next
    case 2
    then have "min k (Suc n) = min k n" by simp
    with 2 Suc show ?thesis by simp
  qed
qed

lemma shares_sum:
  assumes "0 < n" and "n < 2 ^ 32"
  shows "sum_list (spec_shares psys n) = count_particles psys"
proof -
  define N :: "32 word" where "N = of_nat n"
  define L where "L = totlive psys"
  have unatN: "unat N = n"
    using assms(2) by (simp add: N_def unat_of_nat)
  have rlt: "unat (L mod N) < n"
    using assms(1) unatN by (simp add: unat_mod)
  have ind: "(of_nat i :: 32 word) < L mod N \<longleftrightarrow> i < unat (L mod N)" if "i < n" for i
  proof -
    have "unat (of_nat i :: 32 word) = i"
      using that assms(2) by (simp add: unat_of_nat)
    then show ?thesis by (simp add: word_less_nat_alt)
  qed
  have "spec_shares psys n
      = map (\<lambda>i. L div N + (if i < unat (L mod N) then 1 else 0)) [0..<n]"
    unfolding spec_shares_def count_particles_mod_def N_def [symmetric] L_def [symmetric]
    by (rule map_cong) (simp_all add: ind)
  then have "sum_list (spec_shares psys n)
      = of_nat n * (L div N) + of_nat (min (unat (L mod N)) n)"
    by (simp add: sum_list_addf sum_list_triv sum_list_indicator)
  also have "\<dots> = N * (L div N) + L mod N"
    using rlt by (simp add: N_def min_def)
  also have "\<dots> = L"
    by (rule mult_div_mod_eq)
  finally show ?thesis by (simp add: count_particles_def L_def)
qed

text \<open>
  Claim C3. For a particle system that draws a collection, the expander enumerates the
  objects of the collection depth-first, members before child collections; counts
  them once (\<open>totgroup\<close>); and calls the per-object counter on each member in this order,
  with selection off and the member's share as multiplier. The shares are a round-robin
  distribution of the live particle count: they sum to the count (for a collection of
  at least one and fewer than \<open>2 ^ 32\<close> members), and ten live particles over three
  members give 4, 3 and 3.
\<close>

theorem particle_collection_distribution:
  "collection_objects (Collection obs chs) = obs @ concat (map collection_objects chs)
   \<and> stats_dupli_object_group_count collection 0
       = of_nat (length (collection_objects collection))
   \<and> (draw_as (part psys) = PART_DRAW_GR \<and> dup_group (part psys) = Some collection
        \<longrightarrow> stats_dupli_object_parts gpds [psys] stats
            = foldl (\<lambda>s (ob, tot). snd (stats_object gpds ob 0 tot s)) stats
                (zip (collection_objects collection)
                   (spec_shares psys (length (collection_objects collection)))))
   \<and> (0 < n \<and> n < 2 ^ 32 \<longrightarrow> sum_list (spec_shares psys n) = count_particles psys)
   \<and> (count_particles psys = 10 \<longrightarrow> spec_shares psys 3 = [4, 3, 3])"
proof -
  have flat: "collection_objects_children cs = concat (map collection_objects cs)" for cs
    by (induction cs) simp_all
  have enum: "collection_objects (Collection obs chs) = obs @ concat (map collection_objects chs)"
    by (simp add: flat)
  have count: "stats_dupli_object_group_count collection 0
      = of_nat (length (collection_objects collection))"
    by (simp add: group_count_length)
  have walk: "stats_dupli_object_parts gpds [psys] stats
      = foldl (\<lambda>s (ob, tot). snd (stats_object gpds ob 0 tot s)) stats
          (zip (collection_objects collection)
             (spec_shares psys (length (collection_objects collection))))"
    if "draw_as (part psys) = PART_DRAW_GR" "dup_group (part psys) = Some collection"
    using that
    by (simp add: Let_def count group_doit_flat group_doit_objects_fold spec_shares_def)
  have ten: "spec_shares psys 3 = [4, 3, 3]" if "count_particles psys = 10"
  proof -
    have "[0..<3] = [0, 1, 2]" by (simp add: upt_rec)
    with that show ?thesis
      by (simp add: spec_shares_def count_particles_mod_def count_particles_def)
  qed
  from enum count walk shares_sum ten show ?thesis by blast
qed

theorem particle_collection_distribution_witness:
  "draw_as (part psys_collection) = PART_DRAW_GR
   \<and> dup_group (part psys_collection) = Some collection_three
   \<and> collection_objects collection_three = [object_cube, lamp_object, object_cube]
   \<and> count_particles psys_collection = 10
   \<and> spec_shares psys_collection 3 = [4, 3, 3]
   \<and> sum_list (spec_shares psys_collection 3) = 10
   \<and> stats_dupli_object_parts gpencils_none [psys_collection] stats_zero
       = stats_zero\<lparr>totvert := 56, totedge := 84, totface := 42, tottri := 84, totlamp := 3\<rparr>"
proof -
  have objs: "collection_objects collection_three = [object_cube, lamp_object, object_cube]"
    by (simp add: collection_three_def)
  have ten: "count_particles psys_collection = 10"
    by (simp add: psys_collection_def count_particles_def)
  have gr: "draw_as (part psys_collection) = PART_DRAW_GR"
    "dup_group (part psys_collection) = Some collection_three"
    by (simp_all add: psys_collection_def)
  have three: "(0::nat) < 3 \<and> (3::nat) < 2 ^ 32" by simp
  note c3 = particle_collection_distribution
    [of "[object_cube, lamp_object]" "[Collection [object_cube] []]" collection_three
      psys_collection gpencils_none stats_zero 3]
  from c3 gr ten three have shares: "spec_shares psys_collection 3 = [4, 3, 3]"
    and total: "sum_list (spec_shares psys_collection 3) = count_particles psys_collection"
    and walk: "stats_dupli_object_parts gpencils_none [psys_collection] stats_zero
      = foldl (\<lambda>s (ob, tot). snd (stats_object gpencils_none ob 0 tot s)) stats_zero
          (zip (collection_objects collection_three)
             (spec_shares psys_collection (length (collection_objects collection_three))))"
    by blast+
  have "stats_dupli_object_parts gpencils_none [psys_collection] stats_zero
      = stats_zero\<lparr>totvert := 56, totedge := 84, totface := 42, tottri := 84, totlamp := 3\<rparr>"
  proof -
    have len: "length (collection_objects collection_three) = 3"
      by (simp add: objs)
    show ?thesis
      unfolding walk len shares
      by (simp add: objs object_cube_def lamp_object_def mesh_cube_def stats_object_def
          stats_mesheval_Some poly_to_tri_count_def stats_zero_def)
  qed
  with objs ten gr shares total show ?thesis by simp
qed

subsection \<open>Mode classification and exclusivity\<close>

lemma edit_bones_object_mode:
  "object_mode_counters (stats_object_edit_bones ebos s) = object_mode_counters s"
  by (induction ebos arbitrary: s)
    (simp_all add: stats_object_edit_bone_def Let_def object_mode_counters_def)

lemma edit_bezt_object_mode:
  "object_mode_counters (stats_object_edit_bezt bs s) = object_mode_counters s"
  by (induction bs arbitrary: s) (simp_all add: Let_def object_mode_counters_def)

lemma edit_bp_object_mode:
  "object_mode_counters (stats_object_edit_bp ps s) = object_mode_counters s"
  by (induction ps arbitrary: s) (simp_all add: Let_def object_mode_counters_def)

lemma edit_nurbs_object_mode:
  "object_mode_counters (stats_object_edit_nurbs nus s) = object_mode_counters s"
  by (induction nus arbitrary: s) (simp_all add: edit_bezt_object_mode edit_bp_object_mode)

lemma edit_elems_object_mode:
  "object_mode_counters (stats_object_edit_elems mls s) = object_mode_counters s"
  by (induction mls arbitrary: s) (simp_all add: Let_def object_mode_counters_def)

lemma object_edit_object_mode:
  "object_mode_counters (stats_object_edit ob s) = object_mode_counters s"
  by (simp add: stats_object_edit_def edit_bones_object_mode edit_nurbs_object_mode
      edit_elems_object_mode edit_bp_object_mode Let_def)
    (simp add: object_mode_counters_def)

lemma update_edit_object_mode:
  "object_mode_counters (stats_update_edit obs s) = object_mode_counters s"
  by (induction obs arbitrary: s) (simp_all add: object_edit_object_mode)

lemma pose_chans_rest:
  "(stats_object_pose_chans al chans s)\<lparr>totbone := 0, totbonesel := 0\<rparr>
     = s\<lparr>totbone := 0, totbonesel := 0\<rparr>"
  by (induction chans arbitrary: s) (simp_all add: Let_def)

lemma pose_chans_frame:
  "stats_object_pose_chans al chans s
     = s\<lparr>totbone := totbone (stats_object_pose_chans al chans s),
          totbonesel := totbonesel (stats_object_pose_chans al chans s)\<rparr>"
proof -
  define s' where "s' = stats_object_pose_chans al chans s"
  have "s' = (s'\<lparr>totbone := 0, totbonesel := 0\<rparr>)\<lparr>totbone := totbone s', totbonesel := totbonesel s'\<rparr>"
    by simp
  also have "s'\<lparr>totbone := 0, totbonesel := 0\<rparr> = s\<lparr>totbone := 0, totbonesel := 0\<rparr>"
    unfolding s'_def by (rule pose_chans_rest)
  finally show ?thesis
    unfolding s'_def by simp
qed

lemma object_pose_frame:
  "stats_object_pose ob s
     = s\<lparr>totbone := totbone (stats_object_pose ob s),
          totbonesel := totbonesel (stats_object_pose ob s)\<rparr>"
  using pose_chans_frame by (simp add: stats_object_pose_def split: option.split)

lemma stats_object_bone:
  "bone_counters (snd (stats_object gpds ob sel totob stats)) = bone_counters stats"
  by (simp add: stats_object_def stats_mesheval_def stats_object_displist_def Let_def
      bone_counters_def split: ObType.split option.split prod.split)

lemma group_doit_objects_bone:
  "bone_counters (fst (stats_dupli_object_group_doit_objects gpds obs stats psys totgroup cur))
     = bone_counters stats"
  by (induction obs arbitrary: stats cur) (simp_all add: stats_object_bone Let_def)

lemma group_doit_bone:
  "bone_counters (fst (stats_dupli_object_group_doit gpds c stats psys totgroup cur))
     = bone_counters stats"
  "bone_counters (fst (stats_dupli_object_group_doit_children gpds cs stats psys totgroup cur))
     = bone_counters stats"
proof (induction gpds c stats psys totgroup cur and gpds cs stats psys totgroup cur
    rule: stats_dupli_object_group_doit_stats_dupli_object_group_doit_children.induct)
  case (1 gpds obs chs stats psys totgroup cur)
  then show ?case
    using group_doit_objects_bone [where gpds = gpds and obs = obs and stats = stats and cur = cur]
    by (simp split: prod.split) (metis fst_conv)
next
  case (2 gpds stats psys totgroup cur)
  then show ?case by simp
next
  case (3 gpds child chs stats psys totgroup cur)
  then show ?case
    by (simp split: prod.split) (metis fst_conv)
qed

lemma dupli_object_parts_bone:
  "bone_counters (stats_dupli_object_parts gpds psyss stats) = bone_counters stats"
  by (induction psyss arbitrary: stats)
    (auto simp add: stats_object_bone group_doit_bone Let_def split: option.split)

lemma bone_counters_totobj [simp]:
  "bone_counters (s\<lparr>totobj := x\<rparr>) = bone_counters s"
  "bone_counters (s\<lparr>totobjsel := x\<rparr>) = bone_counters s"
  by (simp_all add: bone_counters_def)

lemma dupli_object_bone:
  "bone_counters (snd (stats_dupli_object gpds ob stats)) = bone_counters stats"
  by (simp add: stats_dupli_object_def Let_def split_beta stats_object_bone
      dupli_object_parts_bone)

lemma update_objects_bone:
  "bone_counters (snd (stats_update_objects gpds obs stats)) = bone_counters stats"
  by (induction obs arbitrary: gpds stats) (simp_all add: split_beta dupli_object_bone)

lemma sculpt_guard:
  assumes "stats_is_object_dynamic_topology_sculpt (Some ob) m"
  shows "\<exists>s'. stats_object_sculpt_dynamic_topology ob s = Some s'
           \<and> s' = s\<lparr>totvert := totvert s', tottri := tottri s'\<rparr>"
  using assms
  by (auto simp add: stats_is_object_dynamic_topology_sculpt_def
      stats_object_sculpt_dynamic_topology_def split: option.splits)

lemma stats_update_edit_mode:
  assumes "OBEDIT_FROM_VIEW_LAYER view_layer \<noteq> None"
  shows "stats_update depsgraph view_layer
     = Some (depsgraph,
         view_layer\<lparr>vl_stats := Some (stats_update_edit (objects_in_mode view_layer) stats_zero)\<rparr>)"
  using assms by (auto simp add: stats_update_def Let_def split: option.splits)

lemma stats_update_pose_mode:
  assumes "OBEDIT_FROM_VIEW_LAYER view_layer = None" and "OBACT view_layer = Some ob"
    and "(mode ob AND OB_MODE_POSE) \<noteq> 0"
  shows "stats_update depsgraph view_layer
     = Some (depsgraph, view_layer\<lparr>vl_stats := Some (stats_object_pose ob stats_zero)\<rparr>)"
  using assms by (simp add: stats_update_def Let_def split: prod.split)

lemma stats_update_sculpt_mode:
  assumes "OBEDIT_FROM_VIEW_LAYER view_layer = None" and "OBACT view_layer = Some ob"
    and "(mode ob AND OB_MODE_POSE) = 0"
    and "stats_is_object_dynamic_topology_sculpt (Some ob) (mode ob)"
    and "stats_object_sculpt_dynamic_topology ob stats_zero = Some s'"
  shows "stats_update depsgraph view_layer = Some (depsgraph, view_layer\<lparr>vl_stats := Some s'\<rparr>)"
  using assms by (simp add: stats_update_def Let_def split: prod.split)

lemma stats_update_object_mode:
  assumes "OBEDIT_FROM_VIEW_LAYER view_layer = None"
    and "\<And>ob. OBACT view_layer = Some ob \<Longrightarrow>
           (mode ob AND OB_MODE_POSE) = 0
           \<and> \<not> stats_is_object_dynamic_topology_sculpt (Some ob) (mode ob)"
  shows "stats_update depsgraph view_layer
     = Some (depsgraph\<lparr>dg_gpencils :=
               fst (stats_update_objects (dg_gpencils depsgraph) (dg_objects depsgraph) stats_zero)\<rparr>,
         view_layer\<lparr>vl_stats :=
           Some (snd (stats_update_objects (dg_gpencils depsgraph) (dg_objects depsgraph)
                   stats_zero))\<rparr>)"
  using assms by (auto simp add: stats_update_def Let_def split_beta split: option.splits)

text \<open>
  Claim C6. A recomputation always completes, and it runs exactly the walker of the
  mode that the classifier gives, from the zero accumulator: the edit walker when there
  is an edit object; otherwise the pose walker when the active object is in pose mode;
  otherwise the sculpt reader when the active object is in sculpt mode with a
  dynamic-topology structure; otherwise the object walker. The counters that only
  other modes write stay zero: in edit mode the object, lamp and grease-pencil
  counters; in pose mode all but the two bone counters; in sculpt mode all but the
  vertex and triangle totals; in object mode the bone counters and the selected-edge
  counter.
\<close>

theorem mode_classification:
  "\<exists>depsgraph' stats.
     stats_update depsgraph view_layer = Some (depsgraph', view_layer\<lparr>vl_stats := Some stats\<rparr>)
     \<and> (case classify (OBACT view_layer) (OBEDIT_FROM_VIEW_LAYER view_layer) of
          Edit \<Rightarrow>
            depsgraph' = depsgraph
            \<and> stats = stats_update_edit (objects_in_mode view_layer) stats_zero
            \<and> object_mode_counters stats = ((0, 0, 0, 0), (0, 0, 0, 0))
        | Pose \<Rightarrow>
            depsgraph' = depsgraph
            \<and> (\<exists>ob. OBACT view_layer = Some ob \<and> stats = stats_object_pose ob stats_zero)
            \<and> stats = stats_zero\<lparr>totbone := totbone stats, totbonesel := totbonesel stats\<rparr>
        | SculptDynamicTopology \<Rightarrow>
            depsgraph' = depsgraph
            \<and> (\<exists>ob. OBACT view_layer = Some ob
                   \<and> stats_object_sculpt_dynamic_topology ob stats_zero = Some stats)
            \<and> stats = stats_zero\<lparr>totvert := totvert stats, tottri := tottri stats\<rparr>
        | ObjectMode \<Rightarrow>
            (dg_gpencils depsgraph', stats)
              = stats_update_objects (dg_gpencils depsgraph) (dg_objects depsgraph) stats_zero
            \<and> dg_objects depsgraph' = dg_objects depsgraph
            \<and> bone_counters stats = (0, 0, 0))"
proof -
  let ?ob = "OBACT view_layer"
  let ?ed = "OBEDIT_FROM_VIEW_LAYER view_layer"
  consider (edit) "classify ?ob ?ed = Edit" | (pose) "classify ?ob ?ed = Pose"
    | (sculpt) "classify ?ob ?ed = SculptDynamicTopology" | (object) "classify ?ob ?ed = ObjectMode"
    by (cases rule: Mode.exhaust [of "classify ?ob ?ed"]) auto
  then show ?thesis
  proof cases
    case edit
    then have ed: "?ed \<noteq> None"
      by (auto simp add: classify_def split: if_splits)
    have "object_mode_counters (stats_update_edit (objects_in_mode view_layer) stats_zero)
        = ((0, 0, 0, 0), (0, 0, 0, 0))"
      by (simp add: update_edit_object_mode) (simp add: object_mode_counters_def stats_zero_def)
    with edit stats_update_edit_mode [OF ed] show ?thesis by simp
  next
    case pose
    then obtain ob where ob: "?ed = None" "?ob = Some ob" "(mode ob AND OB_MODE_POSE) \<noteq> 0"
      by (auto simp add: classify_def split: if_splits option.splits)
    have "stats_object_pose ob stats_zero
        = stats_zero\<lparr>totbone := totbone (stats_object_pose ob stats_zero),
                     totbonesel := totbonesel (stats_object_pose ob stats_zero)\<rparr>"
      by (rule object_pose_frame)
    with pose ob stats_update_pose_mode [OF ob] show ?thesis by simp
  next
    case sculpt
    then obtain ob where ob: "?ed = None" "?ob = Some ob" "(mode ob AND OB_MODE_POSE) = 0"
      "stats_is_object_dynamic_topology_sculpt (Some ob) (mode ob)"
      by (auto simp add: classify_def stats_is_object_dynamic_topology_sculpt_def
          split: if_splits option.splits)
    from sculpt_guard [OF ob(4)] obtain s' where
      s': "stats_object_sculpt_dynamic_topology ob stats_zero = Some s'"
        "s' = stats_zero\<lparr>totvert := totvert s', tottri := tottri s'\<rparr>"
      by blast
    with sculpt ob stats_update_sculpt_mode [OF ob s'(1)] show ?thesis by simp
  next
    case object
    then have ed: "?ed = None"
      and act: "\<And>ob. ?ob = Some ob \<Longrightarrow>
           (mode ob AND OB_MODE_POSE) = 0
           \<and> \<not> stats_is_object_dynamic_topology_sculpt (Some ob) (mode ob)"
      by (auto simp add: classify_def stats_is_object_dynamic_topology_sculpt_def
          split: if_splits option.splits)
    let ?r = "stats_update_objects (dg_gpencils depsgraph) (dg_objects depsgraph) stats_zero"
    have "bone_counters (snd ?r) = (0, 0, 0)"
      by (simp add: update_objects_bone) (simp add: bone_counters_def stats_zero_def)
    with object stats_update_object_mode [OF ed act, of depsgraph] show ?thesis
      by (intro exI [of _ "snd ?r"] exI [of _ "depsgraph\<lparr>dg_gpencils := fst ?r\<rparr>"]) simp
  qed
qed

theorem mode_classification_witness:
  "classify (OBACT view_layer_edit) (OBEDIT_FROM_VIEW_LAYER view_layer_edit) = Edit
   \<and> stats_update (scene_depsgraph scene_cube) view_layer_edit
       = Some (scene_depsgraph scene_cube,
           view_layer_edit\<lparr>vl_stats :=
             Some (stats_zero\<lparr>totvert := 3, totvertsel := 2, totbone := 2\<rparr>)\<rparr>)"
proof -
  have mode: "classify (OBACT view_layer_edit) (OBEDIT_FROM_VIEW_LAYER view_layer_edit) = Edit"
    by (simp add: classify_def OBEDIT_FROM_VIEW_LAYER_def OBEDIT_FROM_OBACT_def OBACT_def
        view_layer_edit_def armature_two_bones_def OB_MODE_EDIT_def)
  have walk: "stats_update_edit (objects_in_mode view_layer_edit) stats_zero
      = stats_zero\<lparr>totvert := 3, totvertsel := 2, totbone := 2\<rparr>"
    by (simp add: view_layer_edit_def armature_two_bones_def data_none_def
        stats_object_edit_def stats_object_edit_bone_def Let_def stats_zero_def
        BONE_TIPSEL_def BONE_CONNECTED_def BONE_ROOTSEL_def BONE_SELECTED_def)
  from mode_classification [of "scene_depsgraph scene_cube" view_layer_edit] mode walk
  show ?thesis by auto
qed

subsection \<open>The cached display string\<close>

lemma stats_string_text_view_layer:
  "stats_string_text env (view_layer\<lparr>vl_stats := x\<rparr>) stats
     = stats_string_text env view_layer stats"
  by (simp add: stats_string_text_def OBACT_def)

lemma stats_string_text_infostr:
  "stats_string_text env view_layer (stats\<lparr>infostr := y\<rparr>)
     = stats_string_text env view_layer stats"
  by (simp add: stats_string_text_def stats_string_fmt_def)

lemma stats_string_Some:
  "vl_stats view_layer = Some stats \<Longrightarrow>
   stats_string env view_layer
     = Some (view_layer\<lparr>vl_stats :=
         Some (stats\<lparr>infostr := stats_string_text env view_layer stats\<rparr>)\<rparr>)"
  by (simp add: stats_string_def)

lemma stats_string_twice:
  assumes "stats_string env view_layer = Some view_layer'"
  shows "stats_string env view_layer' = Some view_layer'"
  using assms
  by (auto simp add: stats_string_def stats_string_text_view_layer stats_string_text_infostr
      split: option.splits)

lemma stats_update_total:
  "\<exists>depsgraph' stats.
     stats_update depsgraph view_layer = Some (depsgraph', view_layer\<lparr>vl_stats := Some stats\<rparr>)"
proof -
  let ?ob = "OBACT view_layer"
  let ?ed = "OBEDIT_FROM_VIEW_LAYER view_layer"
  consider (edit) "?ed \<noteq> None"
    | (pose) ob where "?ed = None" "?ob = Some ob" "(mode ob AND OB_MODE_POSE) \<noteq> 0"
    | (sculpt) ob where "?ed = None" "?ob = Some ob" "(mode ob AND OB_MODE_POSE) = 0"
        "stats_is_object_dynamic_topology_sculpt (Some ob) (mode ob)"
    | (object) "?ed = None"
        "\<And>ob. ?ob = Some ob \<Longrightarrow>
           (mode ob AND OB_MODE_POSE) = 0
           \<and> \<not> stats_is_object_dynamic_topology_sculpt (Some ob) (mode ob)"
    by (cases rule: option.exhaust [of ?ob]) auto
  then show ?thesis
  proof cases
    case edit
    from stats_update_edit_mode [OF edit] show ?thesis by blast
  next
    case pose
    from stats_update_pose_mode [OF pose] show ?thesis by blast
  next
    case sculpt
    from sculpt_guard [OF sculpt(4)] obtain s' where
      "stats_object_sculpt_dynamic_topology ob stats_zero = Some s'"
      by blast
    from stats_update_sculpt_mode [OF sculpt this] show ?thesis by blast
  next
    case object
    from stats_update_object_mode [OF object] show ?thesis by blast
  qed
qed

lemma ED_info_stats_string_cached:
  assumes "vl_stats view_layer = Some stats"
  shows "ED_info_stats_string env scene view_layer
     = Some (stats_string_text env view_layer stats, scene,
         view_layer\<lparr>vl_stats :=
           Some (stats\<lparr>infostr := stats_string_text env view_layer stats\<rparr>)\<rparr>)"
  using assms
  by (simp add: ED_info_stats_string_def Let_def stats_string_def BKE_scene_get_depsgraph_def)

lemma ED_info_stats_string_fresh:
  assumes "vl_stats view_layer = None"
    and "stats_update (scene_depsgraph scene) view_layer
           = Some (depsgraph', view_layer\<lparr>vl_stats := Some stats\<rparr>)"
  shows "ED_info_stats_string env scene view_layer
     = Some (stats_string_text env view_layer stats, scene\<lparr>scene_depsgraph := depsgraph'\<rparr>,
         view_layer\<lparr>vl_stats :=
           Some (stats\<lparr>infostr := stats_string_text env view_layer stats\<rparr>)\<rparr>)"
  using assms
  by (simp add: ED_info_stats_string_def Let_def stats_string_def BKE_scene_get_depsgraph_def
      stats_string_text_view_layer)

lemma ED_info_stats_string_total:
  "\<exists>stats scene'.
     ED_info_stats_string env scene view_layer
       = Some (stats_string_text env view_layer stats, scene',
           view_layer\<lparr>vl_stats :=
             Some (stats\<lparr>infostr := stats_string_text env view_layer stats\<rparr>)\<rparr>)"
proof -
  consider (cached) stats where "vl_stats view_layer = Some stats" | (fresh) "vl_stats view_layer = None"
    by (cases rule: option.exhaust [of "vl_stats view_layer"]) auto
  then show ?thesis
  proof cases
    case cached
    from ED_info_stats_string_cached [OF cached] show ?thesis by blast
  next
    case fresh
    from stats_update_total obtain depsgraph' stats where
      "stats_update (scene_depsgraph scene) view_layer
         = Some (depsgraph', view_layer\<lparr>vl_stats := Some stats\<rparr>)"
      by blast
    from ED_info_stats_string_fresh [OF fresh this] show ?thesis by blast
  qed
qed

lemma stats_update_cube:
  "stats_update (scene_depsgraph scene_cube) view_layer_cube
     = Some (scene_depsgraph scene_cube,
         view_layer_cube\<lparr>vl_stats := Some (stats_cube\<lparr>infostr := []\<rparr>)\<rparr>)"
  by (simp add: stats_update_def Let_def split_beta OBACT_def OBEDIT_FROM_VIEW_LAYER_def
      OBEDIT_FROM_OBACT_def view_layer_cube_def scene_cube_def object_cube_def mesh_cube_def
      OB_MODE_OBJECT_def OB_MODE_EDIT_def OB_MODE_POSE_def OB_MODE_SCULPT_def
      stats_is_object_dynamic_topology_sculpt_def stats_dupli_object_def stats_object_def
      stats_mesheval_def BASE_SELECTED_def OB_DUPLIPARTS_def OB_DUPLIFRAMES_def
      OB_DUPLICOLLECTION_def stats_zero_def stats_cube_def poly_to_tri_count_def)






subsection \<open>Degraded input\<close>

lemma format_s_version: "format_s '' | %s'' [v] = '' | '' @ v"
  by simp

lemma stats_string_text_nonempty: "stats_string_text env view_layer stats \<noteq> []"
  by (simp add: stats_string_text_def Let_def BLI_snprintf_def MAX_INFO_LEN_def)

lemma stats_object_mesh_absent:
  assumes "ob_type ob = OB_MESH" and "mesh_eval (runtime ob) = None"
  shows "stats_object gpds ob sel totob stats = (gpds, stats)"
  using assms by (simp add: stats_object_def stats_mesheval_None)

lemma stats_object_displist_absent:
  assumes "case curve_cache (runtime ob) of None \<Rightarrow> True | Some cc \<Rightarrow> disp cc = []"
  shows "stats_object_displist ob sel totob stats = stats"
  using assms by (simp add: stats_object_displist_def split: option.splits)

lemma stats_object_curve_absent:
  assumes "ob_type ob \<in> {OB_SURF, OB_CURVE, OB_FONT, OB_MBALL}"
    and "mesh_eval (runtime ob) = None"
    and "case curve_cache (runtime ob) of None \<Rightarrow> True | Some cc \<Rightarrow> disp cc = []"
  shows "stats_object gpds ob sel totob stats = (gpds, stats)"
  using assms(1,2)
  by (auto simp add: stats_object_def stats_mesheval_None stats_object_displist_absent [OF assms(3)])

lemma dupli_parts_target_absent:
  assumes "(draw_as (part psys) = PART_DRAW_OB \<and> dup_ob (part psys) = None)
         \<or> (draw_as (part psys) = PART_DRAW_GR \<and> dup_group (part psys) = None)"
  shows "stats_dupli_object_parts gpds (psys # psyss) stats = stats_dupli_object_parts gpds psyss stats"
  using assms by auto

lemma dupli_parts_collection_empty:
  assumes "draw_as (part psys) = PART_DRAW_GR" and "dup_group (part psys) = Some collection"
    and "collection_objects collection = []"
  shows "stats_dupli_object_parts gpds (psys # psyss) stats = stats_dupli_object_parts gpds psyss stats"
  using assms by (simp add: Let_def group_doit_flat)

text \<open>
  Claim C9. Degraded input contributes nothing and never fails. A mesh object without
  an evaluated mesh leaves the accumulator as it is, and so does a surface, curve, text
  or metaball object with neither an evaluated mesh nor display elements; an object
  without a pose leaves it as it is in the pose walker; a particle system whose target
  object or target collection is absent, or whose collection holds no object, adds
  nothing in the loop over the particle systems. \<open>ED_info_stats_string\<close> returns a
  string, which is not empty, for every scene and view layer: no null pointer is
  followed.
\<close>

theorem degraded_input:
  "(ob_type mesh_ob = OB_MESH \<and> mesh_eval (runtime mesh_ob) = None
      \<longrightarrow> stats_object gpds mesh_ob sel totob stats = (gpds, stats))
   \<and> (ob_type curve_ob \<in> {OB_SURF, OB_CURVE, OB_FONT, OB_MBALL}
        \<and> mesh_eval (runtime curve_ob) = None
        \<and> (case curve_cache (runtime curve_ob) of None \<Rightarrow> True | Some cc \<Rightarrow> disp cc = [])
      \<longrightarrow> stats_object gpds curve_ob sel totob stats = (gpds, stats))
   \<and> (pose pose_ob = None \<longrightarrow> stats_object_pose pose_ob stats = stats)
   \<and> ((draw_as (part psys) = PART_DRAW_OB \<and> dup_ob (part psys) = None)
        \<or> (draw_as (part psys) = PART_DRAW_GR \<and> dup_group (part psys) = None)
      \<longrightarrow> stats_dupli_object_parts gpds (psys # psyss) stats
            = stats_dupli_object_parts gpds psyss stats)
   \<and> (draw_as (part gpsys) = PART_DRAW_GR \<and> dup_group (part gpsys) = Some collection
        \<and> collection_objects collection = []
      \<longrightarrow> stats_dupli_object_parts gpds (gpsys # psyss) stats
            = stats_dupli_object_parts gpds psyss stats)
   \<and> (\<exists>s scene' view_layer'.
         ED_info_stats_string env scene view_layer = Some (s, scene', view_layer') \<and> s \<noteq> [])"
proof -
  from ED_info_stats_string_total [of env scene view_layer] stats_string_text_nonempty
  have "\<exists>s scene' view_layer'.
         ED_info_stats_string env scene view_layer = Some (s, scene', view_layer') \<and> s \<noteq> []"
    by blast
  moreover have "pose pose_ob = None \<longrightarrow> stats_object_pose pose_ob stats = stats"
    by (simp add: stats_object_pose_def)
  ultimately show ?thesis
    using stats_object_mesh_absent [of mesh_ob gpds sel totob stats]
      stats_object_curve_absent [of curve_ob gpds sel totob stats]
      dupli_parts_target_absent [of psys gpds psyss stats]
      dupli_parts_collection_empty [of gpsys collection gpds psyss stats]
    by blast
qed

lemma ED_info_stats_string_degraded:
  "ED_info_stats_string env_plain scene_degraded view_layer_none
     = Some (''Collection | Verts:0 | Faces:0 | Tris:0 | Objects:1/2 | Mem: 1000 B | v2.80.1'',
         scene_degraded,
         view_layer_none\<lparr>vl_stats :=
           Some (stats_zero\<lparr>totobj := 2, totobjsel := 1,
             infostr := ''Collection | Verts:0 | Faces:0 | Tris:0 | Objects:1/2 | Mem: 1000 B | v2.80.1''\<rparr>)\<rparr>)"
proof -
  have none: "vl_stats view_layer_none = None"
    by (simp add: view_layer_none_def)
  have update: "stats_update (scene_depsgraph scene_degraded) view_layer_none
      = Some (scene_depsgraph scene_degraded,
          view_layer_none\<lparr>vl_stats := Some (stats_zero\<lparr>totobj := 2, totobjsel := 1\<rparr>)\<rparr>)"
    by (simp add: stats_update_def Let_def split_beta OBACT_def OBEDIT_FROM_VIEW_LAYER_def
        OBEDIT_FROM_OBACT_def view_layer_none_def scene_degraded_def object_curve_missing_def
        psys_no_target_def psys_empty_collection_def collection_empty_def runtime_none_def
        stats_dupli_object_def stats_object_def stats_mesheval_def stats_object_displist_def
        BASE_SELECTED_def OB_DUPLIPARTS_def OB_DUPLIFRAMES_def OB_DUPLICOLLECTION_def
        stats_zero_def)
  have str: "stats_string_text env_plain view_layer_none (stats_zero\<lparr>totobj := 2, totobjsel := 1\<rparr>)
      = ''Collection | Verts:0 | Faces:0 | Tris:0 | Objects:1/2 | Mem: 1000 B | v2.80.1''"
    by code_simp
  show ?thesis
    using ED_info_stats_string_fresh [OF none update, of env_plain]
    by (simp add: str)
qed

theorem degraded_input_witness:
  "ob_type object_mesh_missing = OB_MESH \<and> mesh_eval (runtime object_mesh_missing) = None
   \<and> stats_object gpencils_none object_mesh_missing 1 5 stats_zero = (gpencils_none, stats_zero)
   \<and> ob_type object_curve_missing \<in> {OB_SURF, OB_CURVE, OB_FONT, OB_MBALL}
   \<and> mesh_eval (runtime object_curve_missing) = None
   \<and> (case curve_cache (runtime object_curve_missing) of
         None \<Rightarrow> True | Some cc \<Rightarrow> disp cc = [])
   \<and> stats_object gpencils_none object_curve_missing 1 5 stats_zero = (gpencils_none, stats_zero)
   \<and> pose object_pose_missing = None
   \<and> stats_object_pose object_pose_missing stats_zero = stats_zero
   \<and> draw_as (part psys_no_target) = PART_DRAW_OB \<and> dup_ob (part psys_no_target) = None
   \<and> stats_dupli_object_parts gpencils_none [psys_no_target] stats_zero = stats_zero
   \<and> draw_as (part psys_empty_collection) = PART_DRAW_GR
   \<and> dup_group (part psys_empty_collection) = Some collection_empty
   \<and> collection_objects collection_empty = []
   \<and> stats_dupli_object_parts gpencils_none [psys_empty_collection] stats_zero = stats_zero
   \<and> map_option fst (ED_info_stats_string env_plain scene_degraded view_layer_none)
       = Some ''Collection | Verts:0 | Faces:0 | Tris:0 | Objects:1/2 | Mem: 1000 B | v2.80.1''"
proof -
  have mesh: "ob_type object_mesh_missing = OB_MESH \<and> mesh_eval (runtime object_mesh_missing) = None"
    by (simp add: object_mesh_missing_def runtime_none_def)
  have curve: "ob_type object_curve_missing \<in> {OB_SURF, OB_CURVE, OB_FONT, OB_MBALL}
      \<and> mesh_eval (runtime object_curve_missing) = None
      \<and> (case curve_cache (runtime object_curve_missing) of
            None \<Rightarrow> True | Some cc \<Rightarrow> disp cc = [])"
    by (simp add: object_curve_missing_def)
  have pose: "pose object_pose_missing = None"
    by (simp add: object_pose_missing_def)
  have target: "draw_as (part psys_no_target) = PART_DRAW_OB \<and> dup_ob (part psys_no_target) = None"
    by (simp add: psys_no_target_def)
  have empty: "draw_as (part psys_empty_collection) = PART_DRAW_GR
      \<and> dup_group (part psys_empty_collection) = Some collection_empty
      \<and> collection_objects collection_empty = []"
    by (simp add: psys_empty_collection_def collection_empty_def)
  note c9 = degraded_input [of object_mesh_missing gpencils_none 1 5 stats_zero
      object_curve_missing
      object_pose_missing psys_no_target "[]" psys_empty_collection collection_empty
      env_plain scene_degraded view_layer_none]
  from c9 mesh curve pose target empty
  have "stats_object gpencils_none object_mesh_missing 1 5 stats_zero = (gpencils_none, stats_zero)"
    and "stats_object gpencils_none object_curve_missing 1 5 stats_zero = (gpencils_none, stats_zero)"
    and "stats_object_pose object_pose_missing stats_zero = stats_zero"
    and "stats_dupli_object_parts gpencils_none [psys_no_target] stats_zero
           = stats_dupli_object_parts gpencils_none [] stats_zero"
    and "stats_dupli_object_parts gpencils_none [psys_empty_collection] stats_zero
           = stats_dupli_object_parts gpencils_none [] stats_zero"
    by blast+
  with mesh curve pose target empty ED_info_stats_string_degraded show ?thesis
    by simp
qed

subsection \<open>What a recomputation writes\<close>

lemma stats_object_fst:
  "fst (stats_object gpds ob sel totob stats)
     = (if ob_type ob = OB_GPENCIL \<and> sel \<noteq> 0
        then gpds(gpd (data ob) := BKE_gpencil_stats_update (gpds (gpd (data ob)))) else gpds)"
  by (simp add: stats_object_def Let_def split: ObType.split prod.split bool.split)

lemma dupli_object_fst: "fst (stats_dupli_object gpds ob stats) = gp_refreshed [ob] gpds"
  by (rule ext)
    (simp add: stats_dupli_object_def Let_def split_beta stats_object_fst gp_refreshed_def
      gp_selected_def)

lemma BKE_gpencil_stats_update_twice:
  "BKE_gpencil_stats_update (BKE_gpencil_stats_update g) = BKE_gpencil_stats_update g"
  by (simp add: BKE_gpencil_stats_update_def gp_all_strokes_def gp_all_frames_def)

lemma gp_refreshed_Cons:
  "gp_refreshed obs (gp_refreshed [ob] gpds) = gp_refreshed (ob # obs) gpds"
  by (rule ext) (simp add: gp_refreshed_def gp_selected_def BKE_gpencil_stats_update_twice)

lemma update_objects_fst: "fst (stats_update_objects gpds obs stats) = gp_refreshed obs gpds"
proof (induction obs arbitrary: gpds stats)
  case Nil
  show ?case by (rule ext) (simp add: gp_refreshed_def gp_selected_def)
next
  case (Cons ob obs)
  have "fst (stats_update_objects gpds (ob # obs) stats)
      = gp_refreshed obs (fst (stats_dupli_object gpds ob stats))"
    by (simp add: split_beta Cons.IH)
  then show ?case
    by (simp add: dupli_object_fst gp_refreshed_Cons)
qed

lemma gp_refreshed_frame:
  "\<exists>a b c d.
     gp_refreshed obs gpds p
       = (gpds p)\<lparr>totlayer := a, totframe := b, totstroke := c, totpoint := d\<rparr>"
proof -
  have "gpds p = (gpds p)\<lparr>totlayer := totlayer (gpds p), totframe := totframe (gpds p),
      totstroke := totstroke (gpds p), totpoint := totpoint (gpds p)\<rparr>"
    by simp
  then show ?thesis
    unfolding gp_refreshed_def BKE_gpencil_stats_update_def
    by (metis (no_types))
qed

lemma classify_none:
  "classify (OBACT view_layer_none) (OBEDIT_FROM_VIEW_LAYER view_layer_none) = ObjectMode"
  by (simp add: classify_def OBACT_def OBEDIT_FROM_VIEW_LAYER_def OBEDIT_FROM_OBACT_def
      view_layer_none_def)

lemma BKE_gpencil_stats_update_stale: "BKE_gpencil_stats_update gpd_stale = gpd_counted"
  by (simp add: BKE_gpencil_stats_update_def gp_all_strokes_def gp_all_frames_def gpd_stale_def
      gpd_counted_def)

lemma stats_update_gpencil:
  "stats_update depsgraph_gpencil view_layer_none
     = Some (depsgraph_gpencil\<lparr>dg_gpencils := (dg_gpencils depsgraph_gpencil)(1 := gpd_counted)\<rparr>,
         view_layer_none\<lparr>vl_stats :=
           Some (stats_zero\<lparr>totobj := 3, totobjsel := 1, totgplayer := 1, totgpframe := 1,
             totgpstroke := 1, totgppoint := 3\<rparr>)\<rparr>)"
  by (simp add: stats_update_def Let_def split_beta OBACT_def OBEDIT_FROM_VIEW_LAYER_def
      OBEDIT_FROM_OBACT_def view_layer_none_def depsgraph_gpencil_def object_gpencil_def
      object_gpencil_shared_def object_gpencil_other_def
      stats_dupli_object_def stats_object_def BKE_gpencil_stats_update_stale
      BASE_SELECTED_def OB_DUPLIPARTS_def OB_DUPLIFRAMES_def OB_DUPLICOLLECTION_def)
    (simp add: gpd_counted_def gpd_stale_def stats_zero_def)

text \<open>
  Claim C8 says that a recomputation leaves every field of every scene object,
  grease-pencil data included, as it was. It does not: for a selected grease-pencil
  object whose stored totals are stale, \<open>stats_object\<close> calls
  \<open>BKE_gpencil_stats_update\<close> on the data block that the object points to, and the
  totals stored there change from 0 to 1; they change for the unselected object that
  points to the same block as well, and not for the unselected object with a block of
  its own.
\<close>

theorem recomputation_mutates_gpencil:
  "map (object_gpd depsgraph_gpencil) (dg_objects depsgraph_gpencil)
     = [gpd_stale, gpd_stale, gpd_stale]
   \<and> gpd_after_update depsgraph_gpencil view_layer_none
     = Some [gpd_counted, gpd_counted, gpd_stale]
   \<and> totlayer gpd_stale = 0 \<and> totlayer gpd_counted = 1"
  by code_simp

text \<open>
  Claim C8, amended. A recomputation changes nothing of the view layer but the cache,
  and it leaves every evaluated object as it is. In edit, pose and sculpt mode it
  leaves the grease-pencil data blocks as they are too. In object mode it overwrites
  the four totals (layers, frames, strokes, points) stored in every data block that a
  selected grease-pencil object points to with the recomputed counts, which every
  object that points to the block then reads, selected or not; no other field of such a
  block and no other block changes.
\<close>

theorem recomputation_frame:
  assumes "stats_update depsgraph view_layer = Some (depsgraph', view_layer')"
  shows "view_layer' = view_layer\<lparr>vl_stats := vl_stats view_layer'\<rparr>
       \<and> dg_objects depsgraph' = dg_objects depsgraph
       \<and> (classify (OBACT view_layer) (OBEDIT_FROM_VIEW_LAYER view_layer) \<noteq> ObjectMode
            \<longrightarrow> depsgraph' = depsgraph)
       \<and> (classify (OBACT view_layer) (OBEDIT_FROM_VIEW_LAYER view_layer) = ObjectMode
            \<longrightarrow> depsgraph' = depsgraph\<lparr>dg_gpencils :=
                  gp_refreshed (dg_objects depsgraph) (dg_gpencils depsgraph)\<rparr>)
       \<and> (\<forall>obs gpencils p. \<exists>a b c d.
            gp_refreshed obs gpencils p
              = (gpencils p)\<lparr>totlayer := a, totframe := b, totstroke := c, totpoint := d\<rparr>)"
proof -
  let ?ob = "OBACT view_layer"
  let ?ed = "OBEDIT_FROM_VIEW_LAYER view_layer"
  consider (edit) "?ed \<noteq> None"
    | (pose) ob where "?ed = None" "?ob = Some ob" "(mode ob AND OB_MODE_POSE) \<noteq> 0"
    | (sculpt) ob where "?ed = None" "?ob = Some ob" "(mode ob AND OB_MODE_POSE) = 0"
        "stats_is_object_dynamic_topology_sculpt (Some ob) (mode ob)"
    | (object) "?ed = None"
        "\<And>ob. ?ob = Some ob \<Longrightarrow>
           (mode ob AND OB_MODE_POSE) = 0
           \<and> \<not> stats_is_object_dynamic_topology_sculpt (Some ob) (mode ob)"
    by (cases rule: option.exhaust [of ?ob]) auto
  then have "view_layer' = view_layer\<lparr>vl_stats := vl_stats view_layer'\<rparr>
       \<and> dg_objects depsgraph' = dg_objects depsgraph
       \<and> (classify ?ob ?ed \<noteq> ObjectMode \<longrightarrow> depsgraph' = depsgraph)
       \<and> (classify ?ob ?ed = ObjectMode
            \<longrightarrow> depsgraph' = depsgraph\<lparr>dg_gpencils :=
                  gp_refreshed (dg_objects depsgraph) (dg_gpencils depsgraph)\<rparr>)"
  proof cases
    case edit
    then have "classify ?ob ?ed = Edit" by (simp add: classify_def)
    with assms stats_update_edit_mode [OF edit, of depsgraph] show ?thesis by auto
  next
    case pose
    then have "classify ?ob ?ed = Pose" by (simp add: classify_def)
    with assms stats_update_pose_mode [OF pose, of depsgraph] show ?thesis by auto
  next
    case sculpt
    then have mode: "classify ?ob ?ed = SculptDynamicTopology"
      by (auto simp add: classify_def stats_is_object_dynamic_topology_sculpt_def)
    from sculpt_guard [OF sculpt(4)] obtain s' where
      "stats_object_sculpt_dynamic_topology ob stats_zero = Some s'"
      by blast
    with assms mode stats_update_sculpt_mode [OF sculpt this, of depsgraph] show ?thesis by auto
  next
    case object
    then have "classify ?ob ?ed = ObjectMode"
      by (cases rule: option.exhaust [of ?ob])
        (auto simp add: classify_def stats_is_object_dynamic_topology_sculpt_def)
    with assms stats_update_object_mode [OF object, of depsgraph] show ?thesis
      by (auto simp add: update_objects_fst)
  qed
  with gp_refreshed_frame show ?thesis by blast
qed

theorem recomputation_frame_witness:
  "stats_update depsgraph_gpencil view_layer_none
     = Some (depsgraph_gpencil\<lparr>dg_gpencils := (dg_gpencils depsgraph_gpencil)(1 := gpd_counted)\<rparr>,
         view_layer_none\<lparr>vl_stats :=
           Some (stats_zero\<lparr>totobj := 3, totobjsel := 1, totgplayer := 1, totgpframe := 1,
             totgpstroke := 1, totgppoint := 3\<rparr>)\<rparr>)
   \<and> classify (OBACT view_layer_none) (OBEDIT_FROM_VIEW_LAYER view_layer_none) = ObjectMode
   \<and> gp_refreshed (dg_objects depsgraph_gpencil) (dg_gpencils depsgraph_gpencil)
     = (dg_gpencils depsgraph_gpencil)(1 := gpd_counted)
   \<and> map (gp_refreshed (dg_objects depsgraph_gpencil) (dg_gpencils depsgraph_gpencil)) [0, 1, 2]
     = [gpencils_none 0, gpd_counted, gpd_stale]"
proof -
  from recomputation_frame [OF stats_update_gpencil] classify_none
  have "depsgraph_gpencil\<lparr>dg_gpencils := (dg_gpencils depsgraph_gpencil)(1 := gpd_counted)\<rparr>
      = depsgraph_gpencil\<lparr>dg_gpencils :=
          gp_refreshed (dg_objects depsgraph_gpencil) (dg_gpencils depsgraph_gpencil)\<rparr>"
    by blast
  then have "dg_gpencils
        (depsgraph_gpencil\<lparr>dg_gpencils := (dg_gpencils depsgraph_gpencil)(1 := gpd_counted)\<rparr>)
      = dg_gpencils
          (depsgraph_gpencil\<lparr>dg_gpencils :=
             gp_refreshed (dg_objects depsgraph_gpencil) (dg_gpencils depsgraph_gpencil)\<rparr>)"
    by (rule arg_cong)
  then have refreshed: "gp_refreshed (dg_objects depsgraph_gpencil) (dg_gpencils depsgraph_gpencil)
      = (dg_gpencils depsgraph_gpencil)(1 := gpd_counted)"
    by simp
  have "map ((dg_gpencils depsgraph_gpencil)(1 := gpd_counted)) [0, 1, 2]
      = [gpencils_none 0, gpd_counted, gpd_stale]"
    by (simp add: depsgraph_gpencil_def)
  with refreshed classify_none stats_update_gpencil show ?thesis by simp
qed

subsection \<open>Selected counters and totals\<close>

lemma pair_ok_mono: "pair_ok B a b \<Longrightarrow> B \<le> B' \<Longrightarrow> pair_ok B' a b"
  by (simp add: pair_ok_def)

lemma pair_ok_step:
  assumes "pair_ok B a b" and "d' \<le> d" and "unat d \<le> D" and "B + D < 2 ^ 64"
  shows "pair_ok (B + D) (a + d') (b + d)"
proof -
  from assms have ab: "unat a \<le> unat b" and dd: "unat d' \<le> unat d" and bB: "unat b \<le> B"
    by (simp_all add: pair_ok_def word_le_nat_alt)
  have small: "unat b + unat d < 2 ^ LENGTH(64)"
    using bB assms(3,4) by simp
  then have bd: "unat (b + d) = unat b + unat d"
    by (simp only: unat_add_lem)
  have "unat a + unat d' < 2 ^ LENGTH(64)"
    using small ab dd by linarith
  then have ad: "unat (a + d') = unat a + unat d'"
    by (simp only: unat_add_lem)
  show ?thesis
    using ab dd bB assms(3) by (simp add: pair_ok_def word_le_nat_alt bd ad)
qed

lemma scast_nonneg:
  assumes "0 \<le> sint (x :: 32 word)"
  shows "unat (scast x :: 64 word) = nat (sint x)"
proof -
  have "sint x < 2 ^ 31"
    using sint_lt [of x] by simp
  then have lt: "sint x < 2 ^ 64" by (rule less_le_trans) simp
  have "uint (scast x :: 64 word) = sint x mod 2 ^ LENGTH(64)"
    unfolding scast_eq by (rule uint_word_of_int)
  also have "\<dots> = sint x"
    using assms lt by (simp only: len_num1 len_bit0 mod_pos_pos_trivial) simp
  finally show ?thesis
    by (simp only: unat_eq_nat_uint)
qed

lemma scast_nonneg_bound:
  assumes "0 \<le> sint (x :: 32 word)"
  shows "unat (scast x :: 64 word) \<le> step_bound"
proof -
  have "sint x < 2 ^ 31"
    using sint_lt [of x] by simp
  then show ?thesis
    using assms by (simp add: scast_nonneg step_bound_def nat_le_iff)
qed

lemma sint_mult_in_range:
  assumes "mult_in_range a b"
  shows "sint (a * b) = sint a * sint b"
proof -
  from assms have "0 \<le> sint a * sint b" and "sint a * sint b < 2 ^ 31"
    by (simp_all add: mult_in_range_def)
  then have "signed_take_bit 31 (sint a * sint b) = sint a * sint b"
    by (simp add: signed_take_bit_int_eq_self)
  then show ?thesis
    by (simp add: sint_word_mult)
qed

lemma scast_mult_in_range:
  assumes "mult_in_range a b"
  shows "unat (scast (a * b) :: 64 word) \<le> step_bound"
    and "1 \<le> sint b \<Longrightarrow> (scast a :: 64 word) \<le> scast (a * b)"
proof -
  from assms have nn: "0 \<le> sint a" "0 \<le> sint b" by (simp_all add: mult_in_range_def)
  have prod: "sint (a * b) = sint a * sint b"
    using assms by (rule sint_mult_in_range)
  then have nnp: "0 \<le> sint (a * b)"
    using nn by simp
  then show "unat (scast (a * b) :: 64 word) \<le> step_bound"
    by (rule scast_nonneg_bound)
  show "(scast a :: 64 word) \<le> scast (a * b)" if "1 \<le> sint b"
  proof -
    have "sint a * 1 \<le> sint a * sint b"
      using nn that by (intro mult_left_mono) simp_all
    then show ?thesis
      using nn nnp by (simp add: word_le_nat_alt scast_nonneg prod)
  qed
qed


lemma pair_ok_same:
  assumes "pair_ok B a b" shows "pair_ok (B + D) a b"
  using assms by (rule pair_ok_mono) simp

lemma geometry_in_range_mono:
  "geometry_in_range B s \<Longrightarrow> B \<le> B' \<Longrightarrow> geometry_in_range B' s"
  by (auto simp add: geometry_in_range_def intro: pair_ok_mono)

lemma geometry_step:
  assumes "geometry_in_range B s" and "B + step_bound < 2 ^ 64"
    and "totvert s' = totvert s + dv" and "totvertsel s' = totvertsel s + dvs"
    and "dvs \<le> dv" and "unat dv \<le> step_bound"
    and "totface s' = totface s + df" and "totfacesel s' = totfacesel s + dfs"
    and "dfs \<le> df" and "unat df \<le> step_bound"
    and "totbone s' = totbone s + db" and "totbonesel s' = totbonesel s + dbs"
    and "dbs \<le> db" and "unat db \<le> step_bound"
  shows "geometry_in_range (B + step_bound) s'"
  using assms
  by (simp add: geometry_in_range_def pair_ok_step)

lemma geometry_in_range_totobj [simp]:
  "geometry_in_range B (s\<lparr>totobj := x\<rparr>) = geometry_in_range B s"
  "geometry_in_range B (s\<lparr>totobjsel := y\<rparr>) = geometry_in_range B s"
  by (simp_all add: geometry_in_range_def)

lemma displist_branch:
  "(case curve_cache (runtime ob) of
      Some cc \<Rightarrow> (if disp cc \<noteq> [] then BKE_displist_count (disp cc) (0, 0, 0) else (0, 0, 0))
    | None \<Rightarrow> (0, 0, 0)) = displist_counts ob"
  by (simp add: displist_counts_def split: option.split)

lemma stats_object_displist_counts:
  "stats_object_displist ob sel totob stats =
     (case displist_counts ob of
        (totv, totf, tottri') \<Rightarrow>
          stats\<lparr>totvert := totvert stats + scast (totv * totob),
                totface := totface stats + scast (totf * totob),
                tottri := tottri stats + scast (tottri' * totob),
                totvertsel := totvertsel stats + (if sel \<noteq> 0 then scast (totv * totob) else 0),
                totfacesel := totfacesel stats + (if sel \<noteq> 0 then scast (totf * totob) else 0)\<rparr>)"
  unfolding stats_object_displist_def displist_branch
  by (simp add: Let_def split: prod.split)

lemma zero_le_word: "(0 :: 64 word) \<le> x"
  by simp

lemma stats_object_in_range_step:
  assumes ok: "stats_object_in_range ob sel totob"
    and inv: "geometry_in_range B s" and B: "B + step_bound < 2 ^ 64"
  shows "geometry_in_range (B + step_bound) (snd (stats_object gpds ob sel totob s))"
proof -
  consider (mesh) me where "ob_type ob \<in> {OB_MESH, OB_SURF, OB_CURVE, OB_FONT}"
      "mesh_eval (runtime ob) = Some me"
    | (displist) "ob_type ob \<in> {OB_SURF, OB_CURVE, OB_FONT, OB_MBALL}"
      "ob_type ob = OB_MBALL \<or> mesh_eval (runtime ob) = None"
    | (other) "ob_type ob \<notin> {OB_SURF, OB_CURVE, OB_FONT, OB_MBALL}"
      "ob_type ob \<noteq> OB_MESH \<or> mesh_eval (runtime ob) = None"
    by (cases rule: option.exhaust [of "mesh_eval (runtime ob)"]) auto
  then show ?thesis
  proof cases
    case mesh
    from ok mesh have range: "mult_in_range (me_totvert me) totob"
        "mult_in_range (me_totpoly me) totob" "sel \<noteq> 0 \<Longrightarrow> 1 \<le> sint totob"
      by (auto simp add: stats_object_in_range_def)
    show ?thesis
      unfolding stats_object_mesheval [OF mesh] stats_mesheval_Some snd_conv
      by (rule geometry_step [OF inv B,
            where dv = "scast (me_totvert me * totob)"
              and dvs = "if sel \<noteq> 0 then scast (me_totvert me) else 0"
              and df = "scast (me_totpoly me * totob)"
              and dfs = "if sel \<noteq> 0 then scast (me_totpoly me) else 0"
              and db = 0 and dbs = 0])
        (simp_all add: scast_mult_in_range range)
  next
    case displist
    obtain totv totf tottri' where c: "displist_counts ob = (totv, totf, tottri')"
      by (cases rule: prod_cases3 [of "displist_counts ob"]) auto
    from ok displist c have range: "mult_in_range totv totob" "mult_in_range totf totob"
      by (auto simp add: stats_object_in_range_def)
    from displist have obj: "snd (stats_object gpds ob sel totob s) = stats_object_displist ob sel totob s"
      by (auto simp add: stats_object_def stats_mesheval_None)
    show ?thesis
      unfolding obj stats_object_displist_counts c prod.case
      by (rule geometry_step [OF inv B,
            where dv = "scast (totv * totob)"
              and dvs = "if sel \<noteq> 0 then scast (totv * totob) else 0"
              and df = "scast (totf * totob)"
              and dfs = "if sel \<noteq> 0 then scast (totf * totob) else 0"
              and db = 0 and dbs = 0])
        (simp_all add: scast_mult_in_range range)
  next
    case other
    show ?thesis
      by (rule geometry_step [OF inv B, where dv = 0 and dvs = 0 and df = 0 and dfs = 0
            and db = 0 and dbs = 0])
        (use other in \<open>auto simp add: stats_object_def stats_mesheval_None Let_def
            split: ObType.split\<close>)
  qed
qed

lemma foldl_objects_in_range:
  assumes "list_all (\<lambda>(ob, tot). stats_object_in_range ob 0 tot) xs"
    and "geometry_in_range B s" and "B + length xs * step_bound < 2 ^ 64"
  shows "geometry_in_range (B + length xs * step_bound)
           (foldl (\<lambda>s (ob, tot). snd (stats_object gpds ob 0 tot s)) s xs)"
  using assms
proof (induction xs arbitrary: B s)
  case Nil
  then show ?case by simp
next
  case (Cons x xs)
  obtain ob tot where x: "x = (ob, tot)" by (cases x) auto
  from Cons.prems x have ok: "stats_object_in_range ob 0 tot"
    and rest: "list_all (\<lambda>(ob, tot). stats_object_in_range ob 0 tot) xs"
    and bound: "B + step_bound + length xs * step_bound < 2 ^ 64"
    by (simp_all add: add.assoc add.commute)
  from bound have "B + step_bound < 2 ^ 64" by simp
  from stats_object_in_range_step [OF ok Cons.prems(2) this]
  have "geometry_in_range (B + step_bound) (snd (stats_object gpds ob 0 tot s))" .
  from Cons.IH [OF rest this bound] show ?case
    by (simp add: x add.assoc add.commute)
qed

lemma dupli_parts_group:
  assumes "draw_as (part psys) = PART_DRAW_GR" and "dup_group (part psys) = Some collection"
  shows "stats_dupli_object_parts gpds (psys # psyss) stats
     = stats_dupli_object_parts gpds psyss
         (foldl (\<lambda>s (ob, tot). snd (stats_object gpds ob 0 tot s)) stats
            (zip (collection_objects collection)
               (spec_shares psys (length (collection_objects collection)))))"
  using assms
  by (simp add: Let_def group_count_length group_doit_flat group_doit_objects_fold spec_shares_def)

lemma dupli_parts_in_range:
  assumes "list_all psys_in_range psyss" and "geometry_in_range B s"
    and "B + sum_list (map psys_calls psyss) * step_bound < 2 ^ 64"
  shows "geometry_in_range (B + sum_list (map psys_calls psyss) * step_bound)
           (stats_dupli_object_parts gpds psyss s)"
  using assms
proof (induction psyss arbitrary: B s)
  case Nil
  then show ?case by simp
next
  case (Cons psys psyss)
  let ?n = "psys_calls psys"
  from Cons.prems have ok: "psys_in_range psys" and rest: "list_all psys_in_range psyss"
    and bound: "B + ?n * step_bound + sum_list (map psys_calls psyss) * step_bound < 2 ^ 64"
    by (simp_all add: add_mult_distrib add.assoc)
  consider (target) target where "draw_as (part psys) = PART_DRAW_OB"
      "dup_ob (part psys) = Some target"
    | (group) collection where "draw_as (part psys) = PART_DRAW_GR"
      "dup_group (part psys) = Some collection"
    | (none) "\<not> (draw_as (part psys) = PART_DRAW_OB \<and> dup_ob (part psys) \<noteq> None)"
      "\<not> (draw_as (part psys) = PART_DRAW_GR \<and> dup_group (part psys) \<noteq> None)"
    by (metis not_None_eq)
  then have "\<exists>s'. stats_dupli_object_parts gpds (psys # psyss) s = stats_dupli_object_parts gpds psyss s'
      \<and> geometry_in_range (B + ?n * step_bound) s'"
  proof cases
    case target
    then have n: "?n = 1" by (simp add: psys_calls_def)
    from ok target have "stats_object_in_range target 0 (count_particles psys)"
      by (simp add: psys_in_range_def)
    from stats_object_in_range_step [OF this Cons.prems(2)] bound n
    have "geometry_in_range (B + ?n * step_bound)
        (snd (stats_object gpds target 0 (count_particles psys) s))"
      by simp
    with target show ?thesis by auto
  next
    case group
    let ?xs = "zip (collection_objects collection)
        (spec_shares psys (length (collection_objects collection)))"
    from group have n: "?n = length ?xs"
      by (simp add: psys_calls_def spec_shares_def)
    from ok group have "list_all (\<lambda>(ob, tot). stats_object_in_range ob 0 tot) ?xs"
      by (simp add: psys_in_range_def)
    from foldl_objects_in_range [OF this Cons.prems(2)] bound n
    have "geometry_in_range (B + ?n * step_bound)
        (foldl (\<lambda>s (ob, tot). snd (stats_object gpds ob 0 tot s)) s ?xs)"
      by simp
    with dupli_parts_group [OF group] show ?thesis by blast
  next
    case none
    then have n: "?n = 0" by (auto simp add: psys_calls_def)
    from none have "stats_dupli_object_parts gpds (psys # psyss) s = stats_dupli_object_parts gpds psyss s"
      by auto
    with n Cons.prems(2) show ?thesis by auto
  qed
  then obtain s' where step: "stats_dupli_object_parts gpds (psys # psyss) s = stats_dupli_object_parts gpds psyss s'"
    and inv: "geometry_in_range (B + ?n * step_bound) s'"
    by blast
  from Cons.IH [OF rest inv bound] show ?case
    by (simp only: step list.map sum_list.Cons add_mult_distrib add.assoc)
qed

lemma stats_object_totobj:
  "totobj (snd (stats_object gpds ob sel totob stats)) = totobj stats"
  "totobjsel (snd (stats_object gpds ob sel totob stats)) = totobjsel stats"
  by (simp_all add: stats_object_def stats_mesheval_def stats_object_displist_def Let_def
      split: ObType.split option.split prod.split)

lemma group_doit_objects_totobj:
  "totobj (fst (stats_dupli_object_group_doit_objects gpds obs stats psys totgroup cur)) = totobj stats"
  "totobjsel (fst (stats_dupli_object_group_doit_objects gpds obs stats psys totgroup cur))
     = totobjsel stats"
  by (induction obs arbitrary: stats cur) (simp_all add: stats_object_totobj Let_def)

lemma dupli_parts_totobj:
  "totobj (stats_dupli_object_parts gpds psyss stats) = totobj stats"
  "totobjsel (stats_dupli_object_parts gpds psyss stats) = totobjsel stats"
  by (induction psyss arbitrary: stats)
    (auto simp add: stats_object_totobj group_doit_flat group_doit_objects_totobj Let_def
      split: option.split)

lemma stats_object_totobj_commute:
  "snd (stats_object gpds ob sel totob (stats\<lparr>totobj := x\<rparr>))
     = (snd (stats_object gpds ob sel totob stats))\<lparr>totobj := x\<rparr>"
  by (simp add: stats_object_def stats_mesheval_def stats_object_displist_def Let_def
      split: ObType.split option.split prod.split)

lemma dupli_object_snd:
  "snd (stats_dupli_object gpds ob stats) =
     (let is_selected = ((base_flag ob AND BASE_SELECTED) \<noteq> 0);
          sel = (if is_selected then 1 else 0);
          s1 = (if is_selected then stats\<lparr>totobjsel := totobjsel stats + 1\<rparr> else stats);
          s2 = (if (transflag ob AND OB_DUPLIPARTS) \<noteq> 0
                then stats_dupli_object_parts gpds (particlesystem ob) s1 else s1);
          s3 = snd (stats_object gpds ob sel (dupli_multiplier ob) s2)
      in s3\<lparr>totobj := totobj s3 + scast (dupli_multiplier ob)\<rparr>)"
  by (simp add: stats_dupli_object_def dupli_multiplier_def Let_def split_beta
      stats_object_totobj_commute stats_object_totobj)

lemma one_le_scast:
  assumes "1 \<le> sint (x :: 32 word)"
  shows "(1 :: 64 word) \<le> scast x"
proof -
  from assms have "0 \<le> sint x" by simp
  then have "unat (scast x :: 64 word) = nat (sint x)" by (rule scast_nonneg)
  with assms show ?thesis by (simp add: word_le_nat_alt)
qed

lemma dupli_object_in_range:
  assumes ok: "object_in_range ob" and inv: "counters_in_range B s"
    and bound: "B + object_calls ob * step_bound < 2 ^ 64"
  shows "counters_in_range (B + object_calls ob * step_bound) (snd (stats_dupli_object gpds ob s))"
proof -
  define is_selected where "is_selected \<longleftrightarrow> (base_flag ob AND BASE_SELECTED) \<noteq> 0"
  define sel :: "32 word" where "sel = (if is_selected then 1 else 0)"
  define m where "m = dupli_multiplier ob"
  define s1 where "s1 = (if is_selected then s\<lparr>totobjsel := totobjsel s + 1\<rparr> else s)"
  define parts where "parts \<longleftrightarrow> (transflag ob AND OB_DUPLIPARTS) \<noteq> 0"
  define P where "P = (if parts then sum_list (map psys_calls (particlesystem ob)) else 0)"
  define s2 where "s2 = (if parts then stats_dupli_object_parts gpds (particlesystem ob) s1 else s1)"
  define s3 where "s3 = snd (stats_object gpds ob sel m s2)"
  have result: "snd (stats_dupli_object gpds ob s) = s3\<lparr>totobj := totobj s3 + scast m\<rparr>"
    by (simp add: dupli_object_snd Let_def s3_def s2_def s1_def sel_def m_def is_selected_def
        parts_def)
  have calls: "object_calls ob = 1 + P"
    by (simp add: object_calls_def P_def parts_def)
  from ok have m0: "0 \<le> sint m" and m1: "is_selected \<Longrightarrow> 1 \<le> sint m"
    and own: "stats_object_in_range ob sel m"
    and targets: "parts \<Longrightarrow> list_all psys_in_range (particlesystem ob)"
    by (simp_all add: object_in_range_def Let_def m_def sel_def is_selected_def parts_def)
  from bound calls have b2: "B + P * step_bound < 2 ^ 64"
    and b3: "B + P * step_bound + step_bound < 2 ^ 64"
    and b1: "B + step_bound < 2 ^ 64"
    by simp_all
  from inv have g1: "geometry_in_range B s1"
    by (simp add: counters_in_range_def s1_def)
  have g2: "geometry_in_range (B + P * step_bound) s2"
  proof -
    consider (yes) parts | (no) "\<not> parts" by blast
    then show ?thesis
    proof cases
      case yes
      with b2 have "B + sum_list (map psys_calls (particlesystem ob)) * step_bound < 2 ^ 64"
        by (simp add: P_def)
      from dupli_parts_in_range [OF targets [OF yes] g1 this] yes show ?thesis
        by (simp add: s2_def P_def)
    next
      case no
      with g1 show ?thesis by (simp add: s2_def P_def)
    qed
  qed
  from stats_object_in_range_step [OF own g2 b3]
  have g3: "geometry_in_range (B + P * step_bound + step_bound) s3"
    by (simp add: s3_def)
  have tot: "totobj s3 = totobj s" and totsel: "totobjsel s3 = totobjsel s + (if is_selected then 1 else 0)"
    by (simp_all add: s3_def s2_def s1_def stats_object_totobj dupli_parts_totobj)
  from inv have "pair_ok B (totobjsel s) (totobj s)"
    by (simp add: counters_in_range_def)
  moreover have "(if is_selected then 1 else 0 :: 64 word) \<le> scast m"
    using m1 by (simp add: one_le_scast)
  moreover have "unat (scast m :: 64 word) \<le> step_bound"
    using m0 by (rule scast_nonneg_bound)
  ultimately have "pair_ok (B + step_bound)
      (totobjsel s + (if is_selected then 1 else 0)) (totobj s + scast m)"
    using b1 by (rule pair_ok_step)
  then have "pair_ok (B + P * step_bound + step_bound)
      (totobjsel s + (if is_selected then 1 else 0)) (totobj s + scast m)"
    by (rule pair_ok_mono) simp
  with g3 have "counters_in_range (B + P * step_bound + step_bound)
      (s3\<lparr>totobj := totobj s3 + scast m\<rparr>)"
    by (simp add: counters_in_range_def tot totsel)
  then show ?thesis
    by (simp add: result calls add.commute add.left_commute)
qed

lemma update_objects_in_range:
  assumes "list_all object_in_range obs" and "counters_in_range B s"
    and "B + sum_list (map object_calls obs) * step_bound < 2 ^ 64"
  shows "counters_in_range (B + sum_list (map object_calls obs) * step_bound)
           (snd (stats_update_objects gpds obs s))"
  using assms
proof (induction obs arbitrary: B s gpds)
  case Nil
  then show ?case by simp
next
  case (Cons ob obs)
  let ?n = "object_calls ob"
  from Cons.prems have ok: "object_in_range ob" and rest: "list_all object_in_range obs"
    and bound: "B + ?n * step_bound + sum_list (map object_calls obs) * step_bound < 2 ^ 64"
    by (simp_all add: add_mult_distrib add.assoc)
  from bound have "B + ?n * step_bound < 2 ^ 64" by simp
  from dupli_object_in_range [OF ok Cons.prems(2) this]
  have inv: "counters_in_range (B + ?n * step_bound) (snd (stats_dupli_object gpds ob s))" .
  have step: "snd (stats_update_objects gpds (ob # obs) s)
      = snd (stats_update_objects (fst (stats_dupli_object gpds ob s)) obs
          (snd (stats_dupli_object gpds ob s)))"
    by (simp add: split_beta)
  from Cons.IH [OF rest inv bound] show ?case
    by (simp only: step list.map sum_list.Cons add_mult_distrib add.assoc)
qed

lemma counters_in_range_zero: "counters_in_range 0 stats_zero"
  by (simp add: counters_in_range_def geometry_in_range_def pair_ok_def stats_zero_def)

lemma counters_in_range_selected:
  "counters_in_range B stats \<Longrightarrow> selected_le_total stats"
  by (simp add: counters_in_range_def geometry_in_range_def pair_ok_def selected_le_total_def)

lemma calls_bound:
  assumes "n < 2 ^ 32"
  shows "0 + n * step_bound < 2 ^ 64"
proof -
  have "n * step_bound < 2 ^ 32 * 2 ^ 31"
    unfolding step_bound_def using assms by (intro mult_strict_right_mono) simp_all
  also have "\<dots> \<le> (2 :: nat) ^ 64" by simp
  finally show ?thesis by simp
qed

lemma small_step: "Suc 0 \<le> step_bound" "2 \<le> step_bound" "3 \<le> step_bound"
  by (simp_all add: step_bound_def)

lemma list_walk_in_range:
  assumes step: "\<And>x xs s B. ok x \<Longrightarrow> geometry_in_range B s \<Longrightarrow> B + step_bound < 2 ^ 64 \<Longrightarrow>
      \<exists>s'. walk (x # xs) s = walk xs s' \<and> geometry_in_range (B + step_bound) s'"
    and nil: "\<And>s. walk [] s = s"
    and "list_all ok xs" and "geometry_in_range B s" and "B + length xs * step_bound < 2 ^ 64"
  shows "geometry_in_range (B + length xs * step_bound) (walk xs s)"
  using assms(3-)
proof (induction xs arbitrary: B s)
  case Nil
  then show ?case by (simp add: nil)
next
  case (Cons x xs)
  from Cons.prems have ok: "ok x" and rest: "list_all ok xs"
    and bound: "B + step_bound + length xs * step_bound < 2 ^ 64"
    by (simp_all add: add.assoc add.commute)
  from bound have "B + step_bound < 2 ^ 64" by simp
  from step [OF ok Cons.prems(2) this] obtain s' where
    s': "walk (x # xs) s = walk xs s'" and inv: "geometry_in_range (B + step_bound) s'"
    by blast
  from Cons.IH [OF rest inv bound] show ?case
    by (simp add: s' add.assoc add.commute)
qed

lemma edit_bone_totbonesel:
  "totbonesel (stats_object_edit_bone ebo s)
     = totbonesel s + (if (ebo_flag ebo AND BONE_SELECTED) \<noteq> 0 then 1 else 0)"
  by (simp add: stats_object_edit_bone_def Let_def)

lemma edit_bone_totface:
  "totface (stats_object_edit_bone ebo s) = totface s"
  "totfacesel (stats_object_edit_bone ebo s) = totfacesel s"
  by (simp_all add: stats_object_edit_bone_def Let_def)

lemma bone_in_range_le:
  assumes "bone_in_range ebo"
  shows "spec_bone_vertsel ebo \<le> spec_bone_verts ebo"
  using assms
  by (auto simp add: bone_in_range_def spec_bone_vertsel_def spec_bone_verts_def
      split: option.splits)

lemma spec_bone_verts_bound: "unat (spec_bone_verts ebo) \<le> step_bound"
  by (simp add: spec_bone_verts_def small_step)

lemma edit_bones_in_range:
  assumes "list_all bone_in_range ebos" and "geometry_in_range B s"
    and "B + length ebos * step_bound < 2 ^ 64"
  shows "geometry_in_range (B + length ebos * step_bound) (stats_object_edit_bones ebos s)"
proof (rule list_walk_in_range [where ok = bone_in_range, OF _ _ assms])
  fix ebo :: EditBone and ebos s B
  assume ok: "bone_in_range ebo" and inv: "geometry_in_range B s" and B: "B + step_bound < 2 ^ 64"
  have "geometry_in_range (B + step_bound) (stats_object_edit_bone ebo s)"
    by (rule geometry_step [OF inv B,
          where dv = "spec_bone_verts ebo" and dvs = "spec_bone_vertsel ebo"
            and df = 0 and dfs = 0 and db = 1
            and dbs = "if (ebo_flag ebo AND BONE_SELECTED) \<noteq> 0 then 1 else 0"])
      (simp_all add: edit_bone_totvert edit_bone_totvertsel edit_bone_totbone
        edit_bone_totbonesel edit_bone_totface bone_in_range_le [OF ok] spec_bone_verts_bound
        small_step)
  then show "\<exists>s'. stats_object_edit_bones (ebo # ebos) s = stats_object_edit_bones ebos s'
      \<and> geometry_in_range (B + step_bound) s'"
    by auto
qed simp

lemma edit_bezt_in_range:
  assumes "geometry_in_range B s" and "B + length bs * step_bound < 2 ^ 64"
  shows "geometry_in_range (B + length bs * step_bound) (stats_object_edit_bezt bs s)"
proof (rule list_walk_in_range [where ok = "\<lambda>b. True", OF _ _ _ assms])
  fix b :: BezTriple and bs s B
  assume inv: "geometry_in_range B s" and B: "B + step_bound < 2 ^ 64"
  define s' where "s' =
    s\<lparr>totvert := totvert s + 3,
      totvertsel := totvertsel s
        + ((if (f1 b AND SELECT) \<noteq> 0 then 1 else 0) + (if (f2 b AND SELECT) \<noteq> 0 then 1 else 0)
           + (if (f3 b AND SELECT) \<noteq> 0 then 1 else 0))\<rparr>"
  have walk: "stats_object_edit_bezt (b # bs) s = stats_object_edit_bezt bs s'"
    by (simp add: s'_def Let_def ac_simps)
  have "geometry_in_range (B + step_bound) s'"
    by (rule geometry_step [OF inv B,
          where dv = 3
            and dvs = "(if (f1 b AND SELECT) \<noteq> 0 then 1 else 0)
              + (if (f2 b AND SELECT) \<noteq> 0 then 1 else 0)
              + (if (f3 b AND SELECT) \<noteq> 0 then 1 else 0)"
            and df = 0 and dfs = 0 and db = 0 and dbs = 0])
      (simp_all add: s'_def small_step)
  with walk show "\<exists>s'. stats_object_edit_bezt (b # bs) s = stats_object_edit_bezt bs s'
      \<and> geometry_in_range (B + step_bound) s'"
    by blast
qed (simp_all add: list_all_iff)

lemma edit_bp_in_range:
  assumes "geometry_in_range B s" and "B + length ps * step_bound < 2 ^ 64"
  shows "geometry_in_range (B + length ps * step_bound) (stats_object_edit_bp ps s)"
proof (rule list_walk_in_range [where ok = "\<lambda>p. True", OF _ _ _ assms])
  fix p :: BPoint and ps s B
  assume inv: "geometry_in_range B s" and B: "B + step_bound < 2 ^ 64"
  define s' where "s' =
    s\<lparr>totvert := totvert s + 1,
      totvertsel := totvertsel s + (if (bp_f1 p AND SELECT) \<noteq> 0 then 1 else 0)\<rparr>"
  have walk: "stats_object_edit_bp (p # ps) s = stats_object_edit_bp ps s'"
    by (simp add: s'_def Let_def)
  have "geometry_in_range (B + step_bound) s'"
    by (rule geometry_step [OF inv B,
          where dv = 1 and dvs = "if (bp_f1 p AND SELECT) \<noteq> 0 then 1 else 0"
            and df = 0 and dfs = 0 and db = 0 and dbs = 0])
      (simp_all add: s'_def small_step)
  with walk show "\<exists>s'. stats_object_edit_bp (p # ps) s = stats_object_edit_bp ps s'
      \<and> geometry_in_range (B + step_bound) s'"
    by blast
qed (simp_all add: list_all_iff)

lemma edit_elems_in_range:
  assumes "geometry_in_range B s" and "B + length mls * step_bound < 2 ^ 64"
  shows "geometry_in_range (B + length mls * step_bound) (stats_object_edit_elems mls s)"
proof (rule list_walk_in_range [where ok = "\<lambda>ml. True", OF _ _ _ assms])
  fix ml :: MetaElem and mls s B
  assume inv: "geometry_in_range B s" and B: "B + step_bound < 2 ^ 64"
  define s' where "s' =
    s\<lparr>totvert := totvert s + 1,
      totvertsel := totvertsel s + (if (ml_flag ml AND SELECT) \<noteq> 0 then 1 else 0)\<rparr>"
  have walk: "stats_object_edit_elems (ml # mls) s = stats_object_edit_elems mls s'"
    by (simp add: s'_def Let_def)
  have "geometry_in_range (B + step_bound) s'"
    by (rule geometry_step [OF inv B,
          where dv = 1 and dvs = "if (ml_flag ml AND SELECT) \<noteq> 0 then 1 else 0"
            and df = 0 and dfs = 0 and db = 0 and dbs = 0])
      (simp_all add: s'_def small_step)
  with walk show "\<exists>s'. stats_object_edit_elems (ml # mls) s = stats_object_edit_elems mls s'
      \<and> geometry_in_range (B + step_bound) s'"
    by blast
qed (simp_all add: list_all_iff)

lemma edit_nurbs_in_range:
  assumes "geometry_in_range B s"
    and "B + sum_list (map nurb_calls nus) * step_bound < 2 ^ 64"
  shows "geometry_in_range (B + sum_list (map nurb_calls nus) * step_bound)
           (stats_object_edit_nurbs nus s)"
  using assms
proof (induction nus arbitrary: B s)
  case Nil
  then show ?case by simp
next
  case (Cons nu nus)
  let ?n = "nurb_calls nu"
  let ?s' = "if nu_type nu = CU_BEZIER then stats_object_edit_bezt (bezt nu) s
      else stats_object_edit_bp (bp nu) s"
  from Cons.prems have
    bound: "B + ?n * step_bound + sum_list (map nurb_calls nus) * step_bound < 2 ^ 64"
    by (simp add: add_mult_distrib add.assoc)
  then have b1: "B + ?n * step_bound < 2 ^ 64" by simp
  have inv: "geometry_in_range (B + ?n * step_bound) ?s'"
  proof -
    consider (bezier) "nu_type nu = CU_BEZIER" | (other) "nu_type nu \<noteq> CU_BEZIER" by blast
    then show ?thesis
    proof cases
      case bezier
      with b1 have "B + length (bezt nu) * step_bound < 2 ^ 64"
        by (simp add: nurb_calls_def)
      from edit_bezt_in_range [OF Cons.prems(1) this] bezier show ?thesis
        by (simp add: nurb_calls_def)
    next
      case other
      with b1 have "B + length (bp nu) * step_bound < 2 ^ 64"
        by (simp add: nurb_calls_def)
      from edit_bp_in_range [OF Cons.prems(1) this] other show ?thesis
        by (simp add: nurb_calls_def)
    qed
  qed
  from Cons.IH [OF inv bound] show ?case
    by (simp only: stats_object_edit_nurbs.simps list.map sum_list.Cons add_mult_distrib
        add.assoc)
qed

lemma scast_le_scast:
  assumes "0 \<le> sint (a :: 32 word)" and "sint a \<le> sint (b :: 32 word)"
  shows "(scast a :: 64 word) \<le> scast b"
  using assms by (simp add: word_le_nat_alt scast_nonneg)

lemma object_edit_in_range:
  assumes ok: "edit_in_range ob" and inv: "geometry_in_range B s"
    and bound: "B + edit_calls ob * step_bound < 2 ^ 64"
  shows "geometry_in_range (B + edit_calls ob * step_bound) (stats_object_edit ob s)"
proof -
  consider (mesh) "ob_type ob = OB_MESH" | (armature) "ob_type ob = OB_ARMATURE"
    | (curve) "ob_type ob = OB_CURVE \<or> ob_type ob = OB_SURF" | (mball) "ob_type ob = OB_MBALL"
    | (lattice) "ob_type ob = OB_LATTICE"
    | (other) "ob_type ob \<notin> {OB_MESH, OB_ARMATURE, OB_CURVE, OB_SURF, OB_MBALL, OB_LATTICE}"
    by auto
  then show ?thesis
  proof cases
    case mesh
    let ?b = "bm (edit_btmesh (data ob))"
    from ok mesh have range: "0 \<le> sint (bm_totvertsel ?b)"
        "sint (bm_totvertsel ?b) \<le> sint (bm_totvert ?b)"
        "0 \<le> sint (bm_totfacesel ?b)" "sint (bm_totfacesel ?b) \<le> sint (bm_totface ?b)"
      by (simp_all add: edit_in_range_def bmesh_in_range_def)
    then have nn: "0 \<le> sint (bm_totvert ?b)" "0 \<le> sint (bm_totface ?b)"
      by linarith+
    from bound mesh have B: "B + step_bound < 2 ^ 64"
      by (simp add: edit_calls_def)
    have "geometry_in_range (B + step_bound) (stats_object_edit ob s)"
      by (rule geometry_step [OF inv B,
            where dv = "scast (bm_totvert ?b)" and dvs = "scast (bm_totvertsel ?b)"
              and df = "scast (bm_totface ?b)" and dfs = "scast (bm_totfacesel ?b)"
              and db = 0 and dbs = 0])
        (simp_all add: stats_object_edit_def mesh Let_def scast_le_scast range
          scast_nonneg_bound nn small_step)
    with mesh show ?thesis by (simp add: edit_calls_def)
  next
    case armature
    with ok have "list_all bone_in_range (edbo (arm (data ob)))"
      by (simp add: edit_in_range_def)
    from edit_bones_in_range [OF this inv] bound armature show ?thesis
      by (simp add: edit_calls_def stats_object_edit_def)
  next
    case curve
    from edit_nurbs_in_range [OF inv, of "editnurb (data ob)"] bound curve show ?thesis
      by (auto simp add: edit_calls_def stats_object_edit_def)
  next
    case mball
    from edit_elems_in_range [OF inv, of "editelems (data ob)"] bound mball show ?thesis
      by (simp add: edit_calls_def stats_object_edit_def)
  next
    case lattice
    from edit_bp_in_range [OF inv, of "editlatt_def (data ob)"] bound lattice show ?thesis
      by (simp add: edit_calls_def stats_object_edit_def)
  next
    case other
    with inv show ?thesis
      by (auto simp add: edit_calls_def stats_object_edit_def)
  qed
qed

lemma update_edit_in_range:
  assumes "list_all edit_in_range obs" and "geometry_in_range B s"
    and "B + sum_list (map edit_calls obs) * step_bound < 2 ^ 64"
  shows "geometry_in_range (B + sum_list (map edit_calls obs) * step_bound)
           (stats_update_edit obs s)"
  using assms
proof (induction obs arbitrary: B s)
  case Nil
  then show ?case by simp
next
  case (Cons ob obs)
  let ?n = "edit_calls ob"
  from Cons.prems have ok: "edit_in_range ob" and rest: "list_all edit_in_range obs"
    and bound: "B + ?n * step_bound + sum_list (map edit_calls obs) * step_bound < 2 ^ 64"
    by (simp_all add: add_mult_distrib add.assoc)
  from bound have "B + ?n * step_bound < 2 ^ 64" by simp
  from object_edit_in_range [OF ok Cons.prems(2) this]
  have inv: "geometry_in_range (B + ?n * step_bound) (stats_object_edit ob s)" .
  from Cons.IH [OF rest inv bound] show ?case
    by (simp only: stats_update_edit.simps list.map sum_list.Cons add_mult_distrib add.assoc)
qed

lemma pose_chans_in_range:
  assumes "geometry_in_range B s" and "B + length chans * step_bound < 2 ^ 64"
  shows "geometry_in_range (B + length chans * step_bound) (stats_object_pose_chans al chans s)"
proof (rule list_walk_in_range [where ok = "\<lambda>c. True", OF _ _ _ assms])
  fix pchan :: bPoseChannel and pchans s B
  assume inv: "geometry_in_range B s" and B: "B + step_bound < 2 ^ 64"
  define counted where "counted \<longleftrightarrow>
    (case bone pchan of Some b \<Rightarrow> (bone_flag b AND BONE_SELECTED) \<noteq> 0 | None \<Rightarrow> False)
    \<and> (case bone pchan of Some b \<Rightarrow> (bone_layer b AND al) \<noteq> 0 | None \<Rightarrow> False)"
  define s' where "s' =
    s\<lparr>totbone := totbone s + 1, totbonesel := totbonesel s + (if counted then 1 else 0)\<rparr>"
  have walk: "stats_object_pose_chans al (pchan # pchans) s = stats_object_pose_chans al pchans s'"
    by (simp add: s'_def counted_def Let_def)
  have "geometry_in_range (B + step_bound) s'"
    by (rule geometry_step [OF inv B,
          where dv = 0 and dvs = 0 and df = 0 and dfs = 0 and db = 1
            and dbs = "if counted then 1 else 0"])
      (simp_all add: s'_def small_step)
  with walk show "\<exists>s'. stats_object_pose_chans al (pchan # pchans) s
        = stats_object_pose_chans al pchans s'
      \<and> geometry_in_range (B + step_bound) s'"
    by blast
qed (simp_all add: list_all_iff)

lemma stats_update_noframes:
  "stats_update depsgraph_noframes view_layer_none
     = Some (depsgraph_noframes, view_layer_none\<lparr>vl_stats := Some stats_noframes\<rparr>)"
  by (simp add: stats_update_def Let_def split_beta OBACT_def OBEDIT_FROM_VIEW_LAYER_def
      OBEDIT_FROM_OBACT_def view_layer_none_def depsgraph_noframes_def object_cube_noframes_def
      mesh_cube_def stats_dupli_object_def stats_object_def stats_mesheval_def
      count_duplilist_def poly_to_tri_count_def BASE_SELECTED_def OB_DUPLIPARTS_def
      OB_DUPLIFRAMES_def stats_noframes_def stats_zero_def)

lemma stats_update_unsynced:
  "stats_update depsgraph_noframes view_layer_unsynced
     = Some (depsgraph_noframes, view_layer_unsynced\<lparr>vl_stats := Some stats_unsynced\<rparr>)"
proof -
  have edit: "OBEDIT_FROM_VIEW_LAYER view_layer_unsynced \<noteq> None"
    by (simp add: OBEDIT_FROM_VIEW_LAYER_def OBEDIT_FROM_OBACT_def OBACT_def
        view_layer_unsynced_def armature_unsynced_def OB_MODE_EDIT_def)
  have "stats_update_edit (objects_in_mode view_layer_unsynced) stats_zero = stats_unsynced"
    by code_simp
  with stats_update_edit_mode [OF edit, of depsgraph_noframes] show ?thesis
    by simp
qed

text \<open>
  Claim C2 says that after any recomputation every selected counter is at most its
  total. It is not so. In object mode a selected cube that is counted with an instance
  multiplier of zero adds its 8 vertices and 6 faces to the selected counters and
  nothing to the totals, and adds one to the selected objects and nothing to the
  objects. In edit mode an armature whose connected children have selected roots while
  the tip of their parent is not selected gives 5 selected vertices of 4.
\<close>

theorem selected_exceeds_total:
  "stats_update depsgraph_noframes view_layer_none
     = Some (depsgraph_noframes, view_layer_none\<lparr>vl_stats := Some stats_noframes\<rparr>)
   \<and> \<not> totvertsel stats_noframes \<le> totvert stats_noframes
   \<and> \<not> totfacesel stats_noframes \<le> totface stats_noframes
   \<and> \<not> totobjsel stats_noframes \<le> totobj stats_noframes
   \<and> stats_update depsgraph_noframes view_layer_unsynced
     = Some (depsgraph_noframes, view_layer_unsynced\<lparr>vl_stats := Some stats_unsynced\<rparr>)
   \<and> \<not> totvertsel stats_unsynced \<le> totvert stats_unsynced"
  by (simp add: stats_update_noframes stats_update_unsynced)
    (simp add: stats_noframes_def stats_unsynced_def stats_zero_def)

text \<open>
  Claim C2, amended. After a recomputation on a scene that is in range, the selected
  vertex, face, bone and object counters are at most their totals. In range means: in
  object mode every evaluated object is counted with a multiplier that is not negative,
  and at least 1 when the object is selected, the counts read are not negative and
  their products with the multiplier fit in \<open>int\<close>; in edit mode the selected counters of
  an edit mesh lie between 0 and its totals and a connected bone with selected root and
  tip has a parent with selected tip; and fewer than \<open>2 ^ 32\<close> items are counted, so that
  no 64-bit counter wraps around.
\<close>

theorem selected_le_total_in_range:
  assumes update: "stats_update depsgraph view_layer = Some (depsgraph', view_layer')"
    and cache: "vl_stats view_layer' = Some stats"
    and range: "scene_in_range depsgraph view_layer"
  shows "totvertsel stats \<le> totvert stats \<and> totfacesel stats \<le> totface stats
       \<and> totbonesel stats \<le> totbone stats \<and> totobjsel stats \<le> totobj stats"
proof -
  let ?ob = "OBACT view_layer"
  let ?ed = "OBEDIT_FROM_VIEW_LAYER view_layer"
  have zero: "geometry_in_range 0 stats_zero"
    using counters_in_range_zero by (simp add: counters_in_range_def)
  consider (edit) "?ed \<noteq> None"
    | (pose) ob where "?ed = None" "?ob = Some ob" "(mode ob AND OB_MODE_POSE) \<noteq> 0"
    | (sculpt) ob where "?ed = None" "?ob = Some ob" "(mode ob AND OB_MODE_POSE) = 0"
        "stats_is_object_dynamic_topology_sculpt (Some ob) (mode ob)"
    | (object) "?ed = None"
        "\<And>ob. ?ob = Some ob \<Longrightarrow>
           (mode ob AND OB_MODE_POSE) = 0
           \<and> \<not> stats_is_object_dynamic_topology_sculpt (Some ob) (mode ob)"
    by (cases rule: option.exhaust [of ?ob]) auto
  then have "selected_le_total stats"
  proof cases
    case edit
    let ?obs = "objects_in_mode view_layer"
    from edit have "classify ?ob ?ed = Edit" by (simp add: classify_def)
    with range have ok: "list_all edit_in_range ?obs"
      and n: "sum_list (map edit_calls ?obs) < 2 ^ 32"
      by (simp_all add: scene_in_range_def)
    from update cache stats_update_edit_mode [OF edit, of depsgraph]
    have stats: "stats = stats_update_edit ?obs stats_zero" by auto
    from update_edit_in_range [OF ok zero calls_bound [OF n]]
    have "geometry_in_range (0 + sum_list (map edit_calls ?obs) * step_bound) stats"
      by (simp add: stats)
    moreover from update_edit_object_mode [of ?obs stats_zero]
    have "totobj stats = 0" "totobjsel stats = 0"
      by (simp_all add: stats object_mode_counters_def stats_zero_def)
    ultimately show ?thesis
      by (simp add: selected_le_total_def geometry_in_range_def pair_ok_def)
  next
    case pose
    from pose have mode: "classify ?ob ?ed = Pose" by (simp add: classify_def)
    from update cache stats_update_pose_mode [OF pose, of depsgraph]
    have stats: "stats = stats_object_pose ob stats_zero" by auto
    have other: "totobj stats = 0" "totobjsel stats = 0"
      using arg_cong [OF object_pose_frame [of ob stats_zero], of totobj]
        arg_cong [OF object_pose_frame [of ob stats_zero], of totobjsel]
      by (simp_all add: stats stats_zero_def)
    have "\<exists>B. geometry_in_range B stats"
    proof -
      consider (none) "pose ob = None" | (some) po where "pose ob = Some po"
        by (cases rule: option.exhaust [of "pose ob"]) auto
      then show ?thesis
      proof cases
        case none
        with zero show ?thesis by (auto simp add: stats stats_object_pose_def)
      next
        case some
        with range mode pose have "length (chanbase po) < 2 ^ 32"
          by (simp add: scene_in_range_def)
        from pose_chans_in_range [OF zero calls_bound [OF this]] some show ?thesis
          by (auto simp add: stats stats_object_pose_def)
      qed
    qed
    with other show ?thesis
      by (auto simp add: selected_le_total_def geometry_in_range_def pair_ok_def)
  next
    case sculpt
    from sculpt_guard [OF sculpt(4)] obtain s' where
      s': "stats_object_sculpt_dynamic_topology ob stats_zero = Some s'"
        "s' = stats_zero\<lparr>totvert := totvert s', tottri := tottri s'\<rparr>"
      by blast
    from update cache stats_update_sculpt_mode [OF sculpt s'(1), of depsgraph]
    have stats: "stats = s'" by auto
    have "totvertsel stats = 0" "totfacesel stats = 0" "totbonesel stats = 0"
      "totobjsel stats = 0"
      using arg_cong [OF s'(2), of totvertsel] arg_cong [OF s'(2), of totfacesel]
        arg_cong [OF s'(2), of totbonesel] arg_cong [OF s'(2), of totobjsel]
      by (simp_all add: stats stats_zero_def)
    then show ?thesis by (simp add: selected_le_total_def)
  next
    case object
    let ?obs = "dg_objects depsgraph"
    from object have "classify ?ob ?ed = ObjectMode"
      by (cases rule: option.exhaust [of ?ob])
        (auto simp add: classify_def stats_is_object_dynamic_topology_sculpt_def)
    with range have ok: "list_all object_in_range ?obs"
      and n: "sum_list (map object_calls ?obs) < 2 ^ 32"
      by (simp_all add: scene_in_range_def)
    from update cache stats_update_object_mode [OF object, of depsgraph]
    have stats: "stats = snd (stats_update_objects (dg_gpencils depsgraph) ?obs stats_zero)" by auto
    from update_objects_in_range [OF ok counters_in_range_zero calls_bound [OF n]]
    show ?thesis
      unfolding stats by (rule counters_in_range_selected)
  qed
  then show ?thesis by (simp add: selected_le_total_def)
qed

lemma object_cube_in_range: "object_in_range object_cube"
  by (simp add: object_in_range_def dupli_multiplier_def stats_object_in_range_def
      mult_in_range_def object_cube_def mesh_cube_def BASE_SELECTED_def OB_DUPLIPARTS_def
      OB_DUPLIFRAMES_def OB_DUPLICOLLECTION_def Let_def)

lemma scene_cube_in_range: "scene_in_range (scene_depsgraph scene_cube) view_layer_cube"
proof -
  have "classify (OBACT view_layer_cube) (OBEDIT_FROM_VIEW_LAYER view_layer_cube) = ObjectMode"
    by (simp add: classify_def OBACT_def OBEDIT_FROM_VIEW_LAYER_def OBEDIT_FROM_OBACT_def
        view_layer_cube_def object_cube_def OB_MODE_OBJECT_def)
  moreover have "object_calls object_cube = 1"
    by (simp add: object_calls_def object_cube_def OB_DUPLIPARTS_def)
  ultimately show ?thesis
    by (simp add: scene_in_range_def scene_cube_def object_cube_in_range)
qed

theorem selected_le_total_in_range_witness:
  "stats_update (scene_depsgraph scene_cube) view_layer_cube
     = Some (scene_depsgraph scene_cube,
         view_layer_cube\<lparr>vl_stats := Some (stats_cube\<lparr>infostr := []\<rparr>)\<rparr>)
   \<and> scene_in_range (scene_depsgraph scene_cube) view_layer_cube
   \<and> totvertsel stats_cube = 8 \<and> totvert stats_cube = 8
   \<and> totvertsel stats_cube \<le> totvert stats_cube
   \<and> totfacesel stats_cube \<le> totface stats_cube
   \<and> totbonesel stats_cube \<le> totbone stats_cube
   \<and> totobjsel stats_cube \<le> totobj stats_cube"
proof -
  have cache: "vl_stats (view_layer_cube\<lparr>vl_stats := Some (stats_cube\<lparr>infostr := []\<rparr>)\<rparr>)
      = Some (stats_cube\<lparr>infostr := []\<rparr>)"
    by simp
  have counts: "totvertsel stats_cube = 8 \<and> totvert stats_cube = 8"
    by (simp add: stats_cube_def stats_zero_def)
  from selected_le_total_in_range [OF stats_update_cube cache scene_cube_in_range]
    stats_update_cube scene_cube_in_range counts
  show ?thesis by simp
qed

end
